theory Spec2Isabelle
  imports Complex_Main
begin

section \<open>Exceptions\<close>

text \<open>The exceptions the modelled Python can raise, as values.\<close>

datatype error =
    AttributeError string
  | KeyError string
  | IndexError
  | ValueError
  | TypeError
  | ZeroDivisionError
  | AssertionError

section \<open>TransitionMatrix (covasim\_controller/SEIR.py, lines 5--14)\<close>

text \<open>
  \<^verbatim>\<open>n = int((-1 + np.sqrt( (1 + 8*len(p)) ))/2)\<close>.
  \<open>isqrt\<close> is the integer square root (the floor of the real one, lemma
  \<open>isqrt_floor_sqrt\<close>), and \<open>tri_root\<close> the value of the whole expression over the reals
  (lemma \<open>tri_root_floor\<close>); the double-precision square root agrees with it for every
  length a list can have in practice.
\<close>

primrec isqrt :: "nat \<Rightarrow> nat" where
  "isqrt 0 = 0"
| "isqrt (Suc m) = (let r = isqrt m in if Suc r * Suc r \<le> Suc m then Suc r else r)"

definition tri_root :: "nat \<Rightarrow> nat" where
  "tri_root k = (isqrt (1 + 8 * k) - 1) div 2"

text \<open>
  \<^verbatim>\<open>np.tril_indices(n)\<close>: the positions of the lower triangle, diagonal included, in
  row-major order (the two index arrays, zipped).
\<close>

definition tril_indices :: "nat \<Rightarrow> (nat \<times> nat) list" where
  "tril_indices n = concat (map (\<lambda>i. map (\<lambda>j. (i, j)) [0..<Suc i]) [0..<n])"

text \<open>
  \<^verbatim>\<open>np.ravel_multi_index(multi_index, dims)\<close> for two dimensions, in the default mode,
  which raises on a position outside \<open>dims\<close>.
\<close>

definition ravel_multi_index :: "(nat \<times> nat) list \<Rightarrow> nat \<times> nat \<Rightarrow> error + nat list" where
  "ravel_multi_index multi_index dims =
     (if list_all (\<lambda>(i, j). i < fst dims \<and> j < snd dims) multi_index
      then Inr (map (\<lambda>(i, j). i * snd dims + j) multi_index)
      else Inl ValueError)"

text \<open>
  \<^verbatim>\<open>np.put(a, ind, v)\<close> on the flat storage of \<open>a\<close>: the \<open>t\<close>-th index receives
  \<open>v[t mod len(v)]\<close> (a short \<open>v\<close> is repeated, the surplus of a long \<open>v\<close> is never
  read), an index outside \<open>a\<close> raises, and an empty \<open>v\<close> changes nothing.
\<close>

definition np_put :: "real list \<Rightarrow> nat list \<Rightarrow> real list \<Rightarrow> error + real list" where
  "np_put a ind v =
     (if ind \<noteq> [] \<and> a = [] then Inl IndexError
      else if v = [] then Inr a
      else if list_all (\<lambda>i. i < length a) ind
      then Inr (fold (\<lambda>t a'. a'[ind ! t := v ! (t mod length v)]) [0..<length ind] a)
      else Inl IndexError)"

text \<open>The two-dimensional view of a flat row-major storage.\<close>

definition reshape :: "nat \<Rightarrow> nat \<Rightarrow> real list \<Rightarrow> real list list" where
  "reshape rows cols flat = map (\<lambda>i. take cols (drop (i * cols) flat)) [0..<rows]"

text \<open>
  \<^verbatim>\<open>TransitionMatrix.full(p)\<close>: \<open>M = np.zeros((n,n))\<close>, then
  \<^verbatim>\<open>np.put(M, np.ravel_multi_index(np.tril_indices(n), M.shape), p)\<close>, then \<open>return M\<close>.
  The method has no \<open>raise\<close> of its own; the only failures are numpy's.
\<close>

definition full :: "real list \<Rightarrow> error + real list list" where
  "full p =
     (let n = tri_root (length p);
          M = replicate (n * n) 0
      in case ravel_multi_index (tril_indices n) (n, n) of
           Inl e \<Rightarrow> Inl e
         | Inr ind \<Rightarrow>
             (case np_put M ind p of
                Inl e \<Rightarrow> Inl e
              | Inr M' \<Rightarrow> Inr (reshape n n M')))"

text \<open>The vocabulary of the properties: triangular numbers, and the closed form of the result.\<close>

definition tri :: "nat \<Rightarrow> nat" where
  "tri n = n * Suc n div 2"

definition tril_matrix :: "nat \<Rightarrow> real list \<Rightarrow> real list list" where
  "tril_matrix n p =
     map (\<lambda>i. map (\<lambda>j. if j \<le> i then p ! (tri i + j) else 0) [0..<n]) [0..<n]"

text \<open>
  An \<open>n\<close> by \<open>n\<close> matrix (a list of rows) whose entries above the diagonal are zero, and
  the row-major flattening of its lower triangle, diagonal included.
\<close>

definition lower_triangular :: "nat \<Rightarrow> real list list \<Rightarrow> bool" where
  "lower_triangular n L =
     (length L = n \<and> list_all (\<lambda>row. length row = n) L
      \<and> list_all (\<lambda>i. list_all (\<lambda>j. L ! i ! j = 0) [Suc i..<n]) [0..<n])"

definition flatten_tril :: "real list list \<Rightarrow> real list" where
  "flatten_tril L = concat (map (\<lambda>i. take (Suc i) (L ! i)) [0..<length L])"

section \<open>SEIR (covasim\_controller/SEIR.py, lines 16--77)\<close>

subsection \<open>Objects and numpy\<close>

text \<open>
  The values the model distinguishes, and an instance as its dictionary of attributes.
  A two-dimensional array (an \<open>ndarray\<close> or an \<open>np.matrix\<close>) is the list of its rows.
\<close>

datatype pyval = VNone | VBool bool | VInt int | VFloat real | VArr "real list list"

type_synonym obj = "string \<rightharpoonup> pyval"

definition after :: "error + 'a \<Rightarrow> ('a \<Rightarrow> error + 'b) \<Rightarrow> error + 'b" where
  "after r f = (case r of Inl e \<Rightarrow> Inl e | Inr a \<Rightarrow> f a)"

text \<open>\<open>self.name\<close>, for an attribute kept in the instance.\<close>

definition getattr :: "obj \<Rightarrow> string \<Rightarrow> error + pyval" where
  "getattr self name = (case self name of None \<Rightarrow> Inl (AttributeError name) | Some v \<Rightarrow> Inr v)"

text \<open>
  The methods the class body defines. \<open>check_controllability\<close> is not among them: its
  \<open>def\<close> stands inside a string literal (lines 68--74). Calling \<open>self.name()\<close> finds the
  method in the class, or else fails: with a \<open>TypeError\<close> when the instance has a (not
  callable) attribute of that name, and with an \<open>AttributeError\<close> when there is none.
\<close>

definition SEIR_methods :: "string list" where
  "SEIR_methods = [''__init__'', ''_build'', ''check_observability'', ''step'']"

definition lookup_method :: "obj \<Rightarrow> string \<Rightarrow> error + unit" where
  "lookup_method self name =
     (if name \<in> set SEIR_methods then Inr ()
      else case self name of None \<Rightarrow> Inl (AttributeError name) | Some v \<Rightarrow> Inl TypeError)"

text \<open>
  The numpy operations of the class, on rows of reals. What numpy says about an argument
  that is not of the expected kind is folded into \<open>TypeError\<close> and \<open>ValueError\<close>.
\<close>

definition as_dim :: "pyval \<Rightarrow> error + nat" where
  "as_dim v =
     (case v of
        VInt n \<Rightarrow> if n < 0 then Inl ValueError else Inr (nat n)
      | _ \<Rightarrow> Inl TypeError)"

definition as_array :: "pyval \<Rightarrow> error + real list list" where
  "as_array v = (case v of VArr m \<Rightarrow> Inr m | _ \<Rightarrow> Inl TypeError)"

definition shape0 :: "pyval \<Rightarrow> error + nat" where
  "shape0 v = (case v of VArr m \<Rightarrow> Inr (length m) | _ \<Rightarrow> Inl (AttributeError ''shape''))"

definition zeros :: "nat \<Rightarrow> nat \<Rightarrow> real list list" where
  "zeros r c = replicate r (replicate c 0)"

text \<open>\<^verbatim>\<open>np.sum(M, axis=0)\<close>: the sums of the columns.\<close>

definition col_sums :: "real list list \<Rightarrow> real list" where
  "col_sums M = (case M of [] \<Rightarrow> [] | r # _ \<Rightarrow> map (\<lambda>j. sum_list (map (\<lambda>row. row ! j) M)) [0..<length r])"

text \<open>\<^verbatim>\<open>M[0,:] = v\<close>, where a \<open>v\<close> of length one is broadcast.\<close>

definition set_row0 :: "real list list \<Rightarrow> real list \<Rightarrow> error + real list list" where
  "set_row0 M v =
     (case M of
        [] \<Rightarrow> Inl IndexError
      | r # rest \<Rightarrow>
          if length v = length r then Inr (v # rest)
          else if length v = 1 then Inr (replicate (length r) (hd v) # rest)
          else Inl ValueError)"

text \<open>
  \<^verbatim>\<open>np.block\<close> of a list of lists of blocks: the blocks of a row side by side (they must
  have the same height), the rows on top of each other (they must have the same width).
\<close>

definition hstack :: "real list list list \<Rightarrow> error + real list list" where
  "hstack Ms =
     (case Ms of
        [] \<Rightarrow> Inl ValueError
      | M # rest \<Rightarrow>
          if list_all (\<lambda>X. length X = length M) rest
          then Inr (map (\<lambda>i. concat (map (\<lambda>X. X ! i) Ms)) [0..<length M])
          else Inl ValueError)"

definition vstack :: "real list list list \<Rightarrow> error + real list list" where
  "vstack Ms =
     (case concat Ms of
        [] \<Rightarrow> (if Ms = [] then Inl ValueError else Inr [])
      | r # rows \<Rightarrow>
          if list_all (\<lambda>x. length x = length r) rows then Inr (r # rows) else Inl ValueError)"

text \<open>
  The matrix product, as \<open>*\<close> is between an \<open>np.matrix\<close> and an array; the inner
  dimensions must agree.
\<close>

definition mat_mul :: "real list list \<Rightarrow> real list list \<Rightarrow> error + real list list" where
  "mat_mul X Y =
     (if list_all (\<lambda>row. length row = length Y) X
      then Inr (map (\<lambda>row. map (\<lambda>j. sum_list (map (\<lambda>k. row ! k * Y ! k ! j) [0..<length Y]))
                               [0..<(case Y of [] \<Rightarrow> 0 | y # _ \<Rightarrow> length y)]) X)
      else Inl ValueError)"

text \<open>
  The rank of a matrix by elimination: the first row with a nonzero entry is a pivot row,
  its multiples are subtracted from the rows below, and the pivots are counted. This is
  the exact rank; \<^verbatim>\<open>np.linalg.matrix_rank\<close> computes the numerical rank from the singular
  values, which agrees with it up to rounding.
\<close>

definition first_nonzero :: "real list \<Rightarrow> nat option" where
  "first_nonzero r = (case filter (\<lambda>j. r ! j \<noteq> 0) [0..<length r] of [] \<Rightarrow> None | j # _ \<Rightarrow> Some j)"

definition eliminate :: "nat \<Rightarrow> real list \<Rightarrow> real list \<Rightarrow> real list" where
  "eliminate j r s = map (\<lambda>k. s ! k - s ! j / r ! j * r ! k) [0..<length s]"

function matrix_rank :: "real list list \<Rightarrow> nat" where
  "matrix_rank [] = 0"
| "matrix_rank (r # rs) =
     (case first_nonzero r of
        None \<Rightarrow> matrix_rank rs
      | Some j \<Rightarrow> Suc (matrix_rank (map (eliminate j r) rs)))"
  by pat_completeness auto
termination
  by (relation "measure length") auto

subsection \<open>\_build (lines 31--52)\<close>

text \<open>
  Lines 40--44, the block matrix, from the values of the local variables:
  \<^verbatim>\<open>[1, zeros(nEI), zeros(nIR), 0]\<close>,
  \<^verbatim>\<open>[zeros((nEI,1)), EI, zeros((nEI,nIR)), zeros((nEI,1))]\<close>,
  \<^verbatim>\<open>[zeros((nIR,1)), belowEI, IR, zeros((nIR,1))]\<close>,
  \<^verbatim>\<open>[0, zeros((1,nEI)), belowIR, 1]\<close>.
\<close>

definition assemble_A ::
  "real list list \<Rightarrow> real list list \<Rightarrow> real list list \<Rightarrow> real list \<Rightarrow> nat \<Rightarrow> nat
   \<Rightarrow> error + real list list" where
  "assemble_A EI IR belowEI belowIR nEI nIR =
     after (hstack [[[1]], zeros 1 nEI, zeros 1 nIR, [[0]]]) (\<lambda>row_S.
     after (hstack [zeros nEI 1, EI, zeros nEI nIR, zeros nEI 1]) (\<lambda>row_E.
     after (hstack [zeros nIR 1, belowEI, IR, zeros nIR 1]) (\<lambda>row_I.
     after (hstack [[[0]], zeros 1 nEI, [belowIR], [[1]]]) (\<lambda>row_R.
     vstack [row_S, row_E, row_I, row_R]))))"

text \<open>
  \<open>_build(self)\<close>, statement by statement. Line 33 reads \<open>self.nIR\<close> and \<open>self.nEI\<close>,
  line 37 reads \<open>self.nIR.shape[0]\<close>.
\<close>

definition SEIR_build :: "obj \<Rightarrow> error + obj" where
  "SEIR_build self =
     after (getattr self ''nIR'') (\<lambda>rows.
     after (getattr self ''nEI'') (\<lambda>cols.
     after (as_dim rows) (\<lambda>r.
     after (as_dim cols) (\<lambda>c.
     after (getattr self ''EI'') (\<lambda>EI_v.
     after (as_array EI_v) (\<lambda>EI.
     after (set_row0 (zeros r c) (map (\<lambda>s. 1 - s) (col_sums EI))) (\<lambda>belowEI.
     after (getattr self ''IR'') (\<lambda>IR_v.
     after (as_array IR_v) (\<lambda>IR.
     let belowIR = map (\<lambda>s. 1 - s) (col_sums IR) in
     after (shape0 EI_v) (\<lambda>nEI.
     after (getattr self ''nIR'') (\<lambda>nIR_v.
     after (shape0 nIR_v) (\<lambda>nIR.
     after (assemble_A EI IR belowEI belowIR nEI nIR) (\<lambda>A.
     let B = (zeros (2 + nEI + nIR) 1)[0 := [- 1], 1 := [1]];
         self = self(''A'' \<mapsto> VArr A, ''B'' \<mapsto> VArr B) in
     after (getattr self ''C'') (\<lambda>C.
     Inr (if C \<noteq> VNone
          then self(''C'' \<mapsto> VArr [0 # replicate (nEI + nIR) 1 @ [0]])
          else self)))))))))))))))"

subsection \<open>check\_observability (lines 54--66)\<close>

text \<open>\<^verbatim>\<open>xs[1:-1]\<close>, and \<^verbatim>\<open>M[1:-1, 1:-1]\<close>, \<^verbatim>\<open>M[:, 1:-1]\<close>.\<close>

definition inner :: "'a list \<Rightarrow> 'a list" where
  "inner xs = butlast (tl xs)"

text \<open>
  The loop \<^verbatim>\<open>for i in range(1,self.nEIR): Omats.append(Omats[-1]*A)\<close>, \<open>k\<close> iterations
  of it.
\<close>

fun observability_loop ::
  "nat \<Rightarrow> real list list \<Rightarrow> real list list list \<Rightarrow> error + real list list list" where
  "observability_loop 0 A Omats = Inr Omats"
| "observability_loop (Suc k) A Omats =
     after (mat_mul (last Omats) A) (\<lambda>M. observability_loop k A (Omats @ [M]))"

text \<open>
  \<open>check_observability(self, EIonly)\<close>. \<open>rank\<close> stands for \<^verbatim>\<open>np.linalg.matrix_rank\<close>.
  A \<open>self.C\<close> that is \<open>None\<close> cannot be subscripted; the \<open>assert\<close> of line 64 raises an
  \<open>AssertionError\<close>.
\<close>

definition check_observability ::
  "(real list list \<Rightarrow> nat) \<Rightarrow> obj \<Rightarrow> bool \<Rightarrow> error + real list list" where
  "check_observability rank self EIonly =
     after (getattr self ''A'') (\<lambda>A_v.
     after (as_array A_v) (\<lambda>A_full.
     let A = (if EIonly then map inner (inner A_full) else A_full) in
     after (getattr self ''C'') (\<lambda>C_v.
     after (as_array C_v) (\<lambda>C_full.
     let C = (if EIonly then map inner C_full else C_full) in
     after (getattr self ''nEIR'') (\<lambda>nEIR_v.
     after (case nEIR_v of
              VInt n \<Rightarrow> Inr n
            | VBool b \<Rightarrow> Inr (if b then 1 else 0)
            | _ \<Rightarrow> Inl TypeError) (\<lambda>nEIR.
     after (observability_loop (nat (nEIR - 1)) A [C]) (\<lambda>Omats.
     after (vstack Omats) (\<lambda>obs_mat.
     if int (rank obs_mat) = nEIR then Inr obs_mat else Inl AssertionError))))))))"

subsection \<open>\_\_init\_\_ (lines 17--29)\<close>

text \<open>
  Lines 26--29, what follows \<open>self._build()\<close>: the calls of \<open>check_controllability\<close> and
  \<open>check_observability\<close>, then \<^verbatim>\<open>self.X = np.matrix(np.zeros((self.A.shape[0], self.nSteps)))\<close>.
\<close>

definition SEIR_init_checks :: "(real list list \<Rightarrow> nat) \<Rightarrow> obj \<Rightarrow> error + obj" where
  "SEIR_init_checks rank self =
     after (lookup_method self ''check_controllability'') (\<lambda>_.
     after (lookup_method self ''check_observability'') (\<lambda>_.
     after (check_observability rank self True) (\<lambda>_.
     after (getattr self ''A'') (\<lambda>A_v.
     after (shape0 A_v) (\<lambda>n.
     after (getattr self ''nSteps'') (\<lambda>nSteps_v.
     after (as_dim nSteps_v) (\<lambda>m.
     Inr (self(''X'' \<mapsto> VArr (zeros n m))))))))))"

text \<open>\<open>SEIR(nSteps, dt, EI, IR, C)\<close>; the caller passes \<open>VNone\<close> for a \<open>C\<close> left out.\<close>

definition SEIR_init ::
  "(real list list \<Rightarrow> nat) \<Rightarrow> pyval \<Rightarrow> pyval \<Rightarrow> pyval \<Rightarrow> pyval \<Rightarrow> pyval \<Rightarrow> error + obj" where
  "SEIR_init rank nSteps dt EI IR C =
     (let self = [''nSteps'' \<mapsto> nSteps, ''dt'' \<mapsto> dt, ''EI'' \<mapsto> EI, ''IR'' \<mapsto> IR, ''C'' \<mapsto> C] in
      after (lookup_method self ''_build'') (\<lambda>_.
      after (SEIR_build self) (\<lambda>self.
      SEIR_init_checks rank self)))"

text \<open>
  The product of matrices over the reals, and the stacked observability matrix
  \<open>[C; C A; \<dots>; C A^(n-1)]\<close>, each block the previous one times \<open>A\<close>.
\<close>

definition times :: "real list list \<Rightarrow> real list list \<Rightarrow> real list list" where
  "times X Y =
     map (\<lambda>row. map (\<lambda>j. sum_list (map (\<lambda>k. row ! k * Y ! k ! j) [0..<length Y]))
                    [0..<(case Y of [] \<Rightarrow> 0 | y # _ \<Rightarrow> length y)]) X"

definition observability_matrix :: "real list list \<Rightarrow> real list list \<Rightarrow> nat \<Rightarrow> real list list" where
  "observability_matrix C A n = concat (map (\<lambda>i. ((\<lambda>M. times M A) ^^ i) C) [0..<n])"

text \<open>A square matrix of size \<open>m\<close>, and a matrix of \<open>m\<close> columns.\<close>

definition square :: "nat \<Rightarrow> real list list \<Rightarrow> bool" where
  "square m A = (length A = m \<and> list_all (\<lambda>row. length row = m) A)"

definition columns :: "nat \<Rightarrow> real list list \<Rightarrow> bool" where
  "columns m C = list_all (\<lambda>row. length row = m) C"

text \<open>The sum of column \<open>j\<close> of a matrix.\<close>

definition colsum :: "nat \<Rightarrow> real list list \<Rightarrow> real" where
  "colsum j M = sum_list (map (\<lambda>row. row ! j) M)"

subsection \<open>Two configurations\<close>

text \<open>
  One exposed and one infectious stage, each left with probability one half: the
  matrices \<open>_build\<close> is written to assemble, and the model object holding them.
\<close>

definition example_A :: "real list list" where
  "example_A = [[1, 0, 0, 0], [0, 1/2, 0, 0], [0, 1/2, 1/2, 0], [0, 0, 1/2, 1]]"

definition example_model :: obj where
  "example_model = [''A'' \<mapsto> VArr example_A, ''C'' \<mapsto> VArr [[0, 1, 1, 0]], ''nEIR'' \<mapsto> VInt 2]"

text \<open>
  Two exposed stages with the same dynamics, \<open>EI = [[1/2, 0], [0, 1/2]]\<close>, and one
  infectious stage: the aggregate observation cannot tell the two exposed stages apart.
\<close>

definition duplicated_A :: "real list list" where
  "duplicated_A =
     [[1, 0, 0, 0, 0], [0, 1/2, 0, 0, 0], [0, 0, 1/2, 0, 0], [0, 1/2, 1/2, 1/2, 0],
      [0, 0, 0, 1/2, 1]]"

definition duplicated_model :: obj where
  "duplicated_model =
     [''A'' \<mapsto> VArr duplicated_A, ''C'' \<mapsto> VArr [[0, 1, 1, 1, 0]], ''nEIR'' \<mapsto> VInt 3]"

section \<open>controller\_intervention (covasim\_controller/controller\_intervention.py)\<close>

subsection \<open>Floating-point numbers\<close>

text \<open>
  The numbers of \<open>apply\<close> are IEEE doubles: Python floats and numpy \<open>float64\<close> scalars,
  which compute alike. Every operation rounds, and a numpy operation never raises (it may
  give \<open>inf\<close> or \<open>nan\<close>). The model leaves the type \<open>'f\<close> of the doubles and their
  operations open: \<open>+\<close>, \<open>-\<close>, \<open>*\<close>, \<open>/\<close>, \<^verbatim>\<open>np.power\<close>, \<^verbatim>\<open>np.maximum\<close>, \<^verbatim>\<open>np.sum\<close>,
  the conversion of an integer, and the tests \<open>x > 0\<close> and \<open>x == 0\<close>. What is proved of
  \<open>apply\<close> holds for whatever these operations are; \<open>double_ops\<close> below is the instance
  of the examples.
\<close>

record 'f float_ops =
  fadd :: "'f \<Rightarrow> 'f \<Rightarrow> 'f"
  fsub :: "'f \<Rightarrow> 'f \<Rightarrow> 'f"
  fmul :: "'f \<Rightarrow> 'f \<Rightarrow> 'f"
  fdiv :: "'f \<Rightarrow> 'f \<Rightarrow> 'f"
  fpow :: "'f \<Rightarrow> 'f \<Rightarrow> 'f"
  fmax :: "'f \<Rightarrow> 'f \<Rightarrow> 'f"
  fsum :: "'f list \<Rightarrow> 'f"
  fint :: "int \<Rightarrow> 'f"
  fpos :: "'f \<Rightarrow> bool"
  fzero :: "'f \<Rightarrow> bool"

subsection \<open>What the class uses from outside the sources\<close>

text \<open>
  \<open>Kalman\<close> and \<open>Controller\<close> are imported from \<open>.Kalman\<close> and \<open>.controller\<close>, which are
  not among the sources. The model takes the methods \<open>apply\<close> calls as parameters:
  \<open>Kalman.update(E, I, u)\<close> as a state transformer on the estimator's state \<open>'k\<close>, the
  accessor \<open>Kalman.Ihat()\<close>, the attribute \<open>Kalman.EIhat\<close> (a column, as a list) and
  \<open>Controller.get_control(Xu)\<close> (a scalar).
\<close>

record ('k, 'f) deps =
  kalman_update :: "'k \<Rightarrow> 'f \<Rightarrow> 'f \<Rightarrow> 'f \<Rightarrow> 'k"
  kalman_Ihat :: "'k \<Rightarrow> 'f list"
  kalman_EIhat :: "'k \<Rightarrow> 'f list"
  get_control :: "'f list \<Rightarrow> 'f"

text \<open>
  The part of the Covasim simulation object that \<open>apply\<close> reads and writes: the day
  \<open>sim.t\<close>, the result arrays, \<open>sim.scaled_pop_size\<close>, the two arrays of \<open>sim.people\<close>
  (\<open>None\<close> is \<open>nan\<close>) and the parameters \<open>sim.pars['beta']\<close> and
  \<open>sim.pars['beta_layer']\<close>, a dictionary from layer key to rate.
\<close>

record 'f sim =
  sim_t :: nat
  results_n_exposed :: "'f list"
  results_new_infections :: "'f list"
  scaled_pop_size :: 'f
  people_date_exposed :: "'f option list"
  people_infectious :: "bool list"
  pars_beta :: 'f
  pars_beta_layer :: "string \<rightharpoonup> 'f"

text \<open>
  The attributes of the intervention, after \<open>__init__\<close> and \<open>initialize\<close>.
  \<open>SEIR_Ipow\<close> is the attribute \<open>Ipow\<close> of the model object given to the constructor,
  \<open>None\<close> when the object has no such attribute.
\<close>

record ('k, 'f) controller_intervention =
  verbose :: bool
  targets :: "string \<rightharpoonup> 'f"
  SEIR_Ipow :: "'f option"
  u_k :: "'f list"
  start_day :: int
  Kalman :: 'k
  integrated_err :: 'f
  beta0 :: 'f
  beta_layer0 :: "string \<rightharpoonup> 'f"

subsection \<open>Effects: calls, printed lines, exceptions\<close>

text \<open>
  What a run of \<open>apply\<close> does besides changing the two objects: the calls into the
  estimator and the controller, and the lines it prints, in order. A run is the list of
  these events together with either the exception that ended it or its result.
\<close>

datatype 'f event =
    Call_Kalman_update 'f 'f 'f
  | Call_get_control "'f list"
  | Print_day nat
  | Print_new_exposures 'f
  | Print_shrinking_beta
  | Print_negative_estimate 'f
  | Print_asking 'f
  | Print_new_error 'f 'f 'f 'f 'f

type_synonym ('f, 'a) run = "'f event list \<times> (error + 'a)"

definition ret :: "'a \<Rightarrow> ('f, 'a) run" where
  "ret a = ([], Inr a)"

definition emit :: "'f event \<Rightarrow> ('f, unit) run" where
  "emit ev = ([ev], Inr ())"

definition attempt :: "error + 'a \<Rightarrow> ('f, 'a) run" where
  "attempt r = ([], r)"

definition andthen :: "('f, 'a) run \<Rightarrow> ('a \<Rightarrow> ('f, 'b) run) \<Rightarrow> ('f, 'b) run" where
  "andthen m f =
     (case snd m of
        Inl e \<Rightarrow> (fst m, Inl e)
      | Inr a \<Rightarrow> (fst m @ fst (f a), snd (f a)))"

text \<open>
  Indexing a numpy array with a Python integer: a negative index counts from the end, an
  index outside the array raises.
\<close>

definition array_index :: "'a list \<Rightarrow> int \<Rightarrow> error + nat" where
  "array_index xs i =
     (let n = int (length xs); j = (if i < 0 then i + n else i)
      in if 0 \<le> j \<and> j < n then Inr (nat j) else Inl IndexError)"

definition array_get :: "'a list \<Rightarrow> int \<Rightarrow> error + 'a" where
  "array_get xs i = (case array_index xs i of Inl e \<Rightarrow> Inl e | Inr j \<Rightarrow> Inr (xs ! j))"

definition array_set :: "'a list \<Rightarrow> int \<Rightarrow> 'a \<Rightarrow> error + 'a list" where
  "array_set xs i v = (case array_index xs i of Inl e \<Rightarrow> Inl e | Inr j \<Rightarrow> Inr (xs[j := v]))"

definition dict_get :: "(string \<rightharpoonup> 'a) \<Rightarrow> string \<Rightarrow> error + 'a" where
  "dict_get m k = (case m k of None \<Rightarrow> Inl (KeyError k) | Some v \<Rightarrow> Inr v)"

text \<open>
  Division between two Python floats raises on a zero divisor. As soon as one operand is
  a numpy scalar the division is numpy's \<open>fdiv\<close>, which raises nothing.
\<close>

definition py_div :: "'f float_ops \<Rightarrow> 'f \<Rightarrow> 'f \<Rightarrow> error + 'f" where
  "py_div ops a b = (if fzero ops b then Inl ZeroDivisionError else Inr (fdiv ops a b))"

text \<open>
  \<open>new_beta\<close> is a numpy scalar on the branch that computes it with \<open>np.maximum\<close>, and the
  Python float \<open>self.beta0\<close> (Covasim's \<open>pars['beta']\<close>) on the fallback branch.
\<close>

datatype 'f scalar = PyFloat 'f | NpFloat 'f

primrec scalar_value :: "'f scalar \<Rightarrow> 'f" where
  "scalar_value (PyFloat x) = x"
| "scalar_value (NpFloat x) = x"

subsection \<open>apply (lines 52--130)\<close>

text \<open>
  \<^verbatim>\<open>S = N - np.count_nonzero(~np.isnan(sim.people.date_exposed))\<close> and
  \<^verbatim>\<open>I = np.sum(sim.people.infectious)\<close>, an integer count that becomes a double in the
  arithmetic it enters.
\<close>

definition susceptible :: "'f float_ops \<Rightarrow> 'f sim \<Rightarrow> 'f" where
  "susceptible ops sim =
     fsub ops (scaled_pop_size sim)
       (fint ops (int (length (filter (\<lambda>d. d \<noteq> None) (people_date_exposed sim)))))"

definition infectious :: "'f float_ops \<Rightarrow> 'f sim \<Rightarrow> 'f" where
  "infectious ops sim = fint ops (int (length (filter (\<lambda>b. b) (people_infectious sim))))"

text \<open>
  Lines 100--101: \<^verbatim>\<open>xi = np.sum(Ihat)\<close>, \<^verbatim>\<open>xi += np.sum(Ihat[:3])\<close>.
\<close>

definition upweighted :: "'f float_ops \<Rightarrow> 'f list \<Rightarrow> 'f" where
  "upweighted ops Ihat = fadd ops (fsum ops Ihat) (fsum ops (take 3 Ihat))"

text \<open>
  Lines 103--112. When \<open>xi > 0\<close>: \<^verbatim>\<open>xi = np.power(xi, self.SEIR.Ipow)\<close>,
  \<^verbatim>\<open>SI_by_N = xs*xi / N\<close>, \<^verbatim>\<open>new_beta = np.maximum(u / SI_by_N, 0)\<close>,
  \<^verbatim>\<open>new_beta /= 18\<close>. Otherwise a printed warning and \<^verbatim>\<open>new_beta = self.beta0\<close>.
\<close>

definition rate_formula :: "'f float_ops \<Rightarrow> 'f \<Rightarrow> 'f \<Rightarrow> 'f \<Rightarrow> 'f \<Rightarrow> 'f \<Rightarrow> 'f" where
  "rate_formula ops u xs xi Ipow N =
     fdiv ops
       (fmax ops (fdiv ops u (fdiv ops (fmul ops xs (fpow ops xi Ipow)) N)) (fint ops 0))
       (fint ops 18)"

definition new_beta_of ::
  "'f float_ops \<Rightarrow> ('k, 'f) controller_intervention \<Rightarrow> 'f \<Rightarrow> 'f \<Rightarrow> 'f \<Rightarrow> 'f
   \<Rightarrow> ('f, 'f scalar) run" where
  "new_beta_of ops self xs xi N u =
     (if fpos ops xi then
        andthen (attempt (case SEIR_Ipow self of
                            None \<Rightarrow> Inl (AttributeError ''Ipow'')
                          | Some Ipow \<Rightarrow> Inr Ipow)) (\<lambda>Ipow.
        andthen (if verbose self then emit Print_shrinking_beta else ret ()) (\<lambda>_.
        ret (NpFloat (rate_formula ops u xs xi Ipow N))))
      else
        andthen (emit (Print_negative_estimate xi)) (\<lambda>_.
        ret (PyFloat (beta0 self))))"

text \<open>
  Lines 119--120: \<^verbatim>\<open>for lkey in ['h', 's', 'w', 'c', 'l']:\<close>
  \<^verbatim>\<open>sim.pars['beta_layer'][lkey] = self.beta_layer0[lkey] * new_beta / self.beta0\<close>.
  The product is rounded, then the quotient. The rates of \<open>beta_layer0\<close> and \<open>beta0\<close> are
  Python floats (Covasim's parameters), so that the quotient is Python's when \<open>new_beta\<close>
  is a Python float and numpy's when it is a numpy scalar.
\<close>

definition layer_keys :: "string list" where
  "layer_keys = [''h'', ''s'', ''w'', ''c'', ''l'']"

definition scaled_layer :: "'f float_ops \<Rightarrow> 'f \<Rightarrow> 'f scalar \<Rightarrow> 'f \<Rightarrow> error + 'f" where
  "scaled_layer ops l0 new_beta b0 =
     (case new_beta of
        PyFloat b \<Rightarrow> py_div ops (fmul ops l0 b) b0
      | NpFloat b \<Rightarrow> Inr (fdiv ops (fmul ops l0 b) b0))"

fun set_beta_layer ::
  "'f float_ops \<Rightarrow> string list \<Rightarrow> (string \<rightharpoonup> 'f) \<Rightarrow> 'f scalar \<Rightarrow> 'f \<Rightarrow> (string \<rightharpoonup> 'f)
   \<Rightarrow> error + (string \<rightharpoonup> 'f)" where
  "set_beta_layer ops [] bl0 new_beta b0 bl = Inr bl"
| "set_beta_layer ops (lkey # rest) bl0 new_beta b0 bl =
     (case dict_get bl0 lkey of
        Inl e \<Rightarrow> Inl e
      | Inr l0 \<Rightarrow>
          (case scaled_layer ops l0 new_beta b0 of
             Inl e \<Rightarrow> Inl e
           | Inr v \<Rightarrow> set_beta_layer ops rest bl0 new_beta b0 (bl(lkey \<mapsto> v))))"

text \<open>Lines 67--68, the branch taken before \<open>start_day\<close> or when \<open>S*I == 0\<close>.\<close>

definition open_loop ::
  "('k, 'f) deps \<Rightarrow> ('k, 'f) controller_intervention \<Rightarrow> 'f sim \<Rightarrow> 'f \<Rightarrow> 'f
   \<Rightarrow> ('f, ('k, 'f) controller_intervention \<times> 'f sim) run" where
  "open_loop d self sim E I =
     andthen (attempt (array_get (results_new_infections sim) (int (sim_t sim) - 1))) (\<lambda>u.
     andthen (emit (Call_Kalman_update E I u)) (\<lambda>_.
     ret (self\<lparr>Kalman := kalman_update d (Kalman self) E I u\<rparr>, sim)))"

text \<open>Lines 86--128, the other branch.\<close>

definition closed_loop ::
  "'f float_ops \<Rightarrow> ('k, 'f) deps \<Rightarrow> ('k, 'f) controller_intervention \<Rightarrow> 'f sim
   \<Rightarrow> 'f \<Rightarrow> 'f \<Rightarrow> 'f \<Rightarrow> 'f \<Rightarrow> 'f
   \<Rightarrow> ('f, ('k, 'f) controller_intervention \<times> 'f sim) run" where
  "closed_loop ops d self sim y N S E I =
     (let Xu = kalman_EIhat d (Kalman self) @ [integrated_err self] in
      andthen (emit (Call_get_control Xu)) (\<lambda>_.
      let u = fmax ops (get_control d Xu) (fint ops 0) in
      andthen (emit (Call_Kalman_update E I u)) (\<lambda>_.
      let K = kalman_update d (Kalman self) E I u;
          xs = S;
          Ihat = kalman_Ihat d K;
          xi = upweighted ops Ihat in
      andthen (new_beta_of ops self xs xi N u) (\<lambda>new_beta.
      andthen (attempt (set_beta_layer ops layer_keys (beta_layer0 self) new_beta (beta0 self)
                          (pars_beta_layer sim))) (\<lambda>bl.
      andthen (attempt (array_set (u_k self) (int (sim_t sim)) (scalar_value new_beta))) (\<lambda>uk.
      andthen (if verbose self then
                 andthen (emit (Print_asking u)) (\<lambda>_.
                 andthen (attempt (array_get (results_n_exposed sim) (int (sim_t sim) - 1))) (\<lambda>n_exp.
                 andthen (attempt (dict_get (targets self) ''infected'')) (\<lambda>tgt.
                 emit (Print_new_error y n_exp tgt (fsub ops y tgt) (integrated_err self)))))
               else ret ()) (\<lambda>_.
      andthen (attempt (dict_get (targets self) ''infected'')) (\<lambda>tgt.
      ret (self\<lparr>Kalman := K, u_k := uk,
                 integrated_err := fsub ops (fadd ops (integrated_err self) y) tgt\<rparr>,
           sim\<lparr>pars_beta_layer := bl\<rparr>)))))))))"

text \<open>
  \<open>apply(self, sim)\<close>, named \<open>apply_day\<close> here (\<open>apply\<close> is a keyword).
  \<open>closed_loop_day\<close> is the negation of the test of line 66,
  \<^verbatim>\<open>sim.t < self.start_day or S*I==0\<close>.
\<close>

definition closed_loop_day ::
  "'f float_ops \<Rightarrow> ('k, 'f) controller_intervention \<Rightarrow> 'f sim \<Rightarrow> bool" where
  "closed_loop_day ops self sim =
     (\<not> (int (sim_t sim) < start_day self
         \<or> fzero ops (fmul ops (susceptible ops sim) (infectious ops sim))))"

definition apply_day ::
  "'f float_ops \<Rightarrow> ('k, 'f) deps \<Rightarrow> ('k, 'f) controller_intervention \<Rightarrow> 'f sim
   \<Rightarrow> ('f, ('k, 'f) controller_intervention \<times> 'f sim) run" where
  "apply_day ops d self sim =
     andthen (if verbose self then emit (Print_day (sim_t sim)) else ret ()) (\<lambda>_.
     andthen (attempt (array_get (results_n_exposed sim) (int (sim_t sim) - 1))) (\<lambda>y.
     let N = scaled_pop_size sim;
         S = susceptible ops sim;
         I = infectious ops sim;
         E = fsub ops y I in
     andthen (if verbose self then
                andthen (attempt (array_get (results_new_infections sim) (int (sim_t sim) - 1)))
                  (\<lambda>x. emit (Print_new_exposures x))
              else ret ()) (\<lambda>_.
     if closed_loop_day ops self sim then closed_loop ops d self sim y N S E I
     else open_loop d self sim E I)))"

subsection \<open>Reading a run\<close>

text \<open>
  The calls a run made, in order, with their arguments: \<open>update_calls\<close> for
  \<open>Kalman.update(E, I, u)\<close>, \<open>get_control_calls\<close> for \<open>Controller.get_control(Xu)\<close>.
\<close>

fun update_calls :: "'f event list \<Rightarrow> ('f \<times> 'f \<times> 'f) list" where
  "update_calls [] = []"
| "update_calls (Call_Kalman_update E I u # evs) = (E, I, u) # update_calls evs"
| "update_calls (ev # evs) = update_calls evs"

fun get_control_calls :: "'f event list \<Rightarrow> 'f list list" where
  "get_control_calls [] = []"
| "get_control_calls (Call_get_control Xu # evs) = Xu # get_control_calls evs"
| "get_control_calls (ev # evs) = get_control_calls evs"

text \<open>A run that calls neither the estimator nor the controller.\<close>

definition quiet :: "('f, 'a) run \<Rightarrow> bool" where
  "quiet r = (update_calls (fst r) = [] \<and> get_control_calls (fst r) = [])"

subsection \<open>The doubles of the examples\<close>

text \<open>
  IEEE 754 binary64 over the reals: a finite double is the real it stands for, and the
  result of an operation is the exact result rounded to 53 significant bits, to the
  nearest, ties to the even significand (\<open>rnd\<close>), with gradual underflow below
  \<open>2^(-1022)\<close> and overflow to an infinity (\<open>fin\<close>). Zero carries no sign here: a
  quotient by zero has the sign of its numerator.
\<close>

datatype double = Finite real | PInf | NInf | NaN

definition rne :: "real \<Rightarrow> int" where
  "rne r =
     (let f = \<lfloor>r\<rfloor>
      in if r - of_int f < 1 / 2 then f
         else if 1 / 2 < r - of_int f then f + 1
         else if even f then f else f + 1)"

definition rnd :: "real \<Rightarrow> real" where
  "rnd x =
     (if x = 0 then 0
      else let e = max \<lfloor>log 2 \<bar>x\<bar>\<rfloor> (- 1022)
           in of_int (rne (x * 2 powr (52 - of_int e))) * 2 powr (of_int e - 52))"

definition max_double :: real where
  "max_double = (2 ^ 53 - 1) * 2 ^ 971"

definition fin :: "real \<Rightarrow> double" where
  "fin x =
     (let r = rnd x
      in if max_double < r then PInf else if r < - max_double then NInf else Finite r)"

fun dneg :: "double \<Rightarrow> double" where
  "dneg (Finite a) = Finite (- a)"
| "dneg PInf = NInf"
| "dneg NInf = PInf"
| "dneg NaN = NaN"

fun dadd :: "double \<Rightarrow> double \<Rightarrow> double" where
  "dadd (Finite a) (Finite b) = fin (a + b)"
| "dadd NaN y = NaN"
| "dadd x NaN = NaN"
| "dadd PInf NInf = NaN"
| "dadd NInf PInf = NaN"
| "dadd PInf y = PInf"
| "dadd x PInf = PInf"
| "dadd NInf y = NInf"
| "dadd x NInf = NInf"

definition dsub :: "double \<Rightarrow> double \<Rightarrow> double" where
  "dsub x y = dadd x (dneg y)"

fun dmul :: "double \<Rightarrow> double \<Rightarrow> double" where
  "dmul (Finite a) (Finite b) = fin (a * b)"
| "dmul NaN y = NaN"
| "dmul x NaN = NaN"
| "dmul (Finite a) PInf = (if a = 0 then NaN else if 0 < a then PInf else NInf)"
| "dmul (Finite a) NInf = (if a = 0 then NaN else if 0 < a then NInf else PInf)"
| "dmul PInf (Finite b) = (if b = 0 then NaN else if 0 < b then PInf else NInf)"
| "dmul NInf (Finite b) = (if b = 0 then NaN else if 0 < b then NInf else PInf)"
| "dmul PInf PInf = PInf"
| "dmul NInf NInf = PInf"
| "dmul PInf NInf = NInf"
| "dmul NInf PInf = NInf"

fun ddiv :: "double \<Rightarrow> double \<Rightarrow> double" where
  "ddiv (Finite a) (Finite b) =
     (if b = 0 then (if a = 0 then NaN else if 0 < a then PInf else NInf) else fin (a / b))"
| "ddiv NaN y = NaN"
| "ddiv x NaN = NaN"
| "ddiv (Finite a) PInf = Finite 0"
| "ddiv (Finite a) NInf = Finite 0"
| "ddiv PInf (Finite b) = (if b < 0 then NInf else PInf)"
| "ddiv NInf (Finite b) = (if b < 0 then PInf else NInf)"
| "ddiv x y = NaN"

fun dmax :: "double \<Rightarrow> double \<Rightarrow> double" where
  "dmax (Finite a) (Finite b) = Finite (max a b)"
| "dmax NaN y = NaN"
| "dmax x NaN = NaN"
| "dmax PInf y = PInf"
| "dmax x PInf = PInf"
| "dmax NInf y = y"
| "dmax x NInf = x"

text \<open>
  \<^verbatim>\<open>np.power\<close>, taken as correctly rounded (the C library's \<open>pow\<close> may differ in the
  last place; it is exact for the exponent 1 of the examples).
\<close>

definition dpow :: "double \<Rightarrow> double \<Rightarrow> double" where
  "dpow x p =
     (case p of
        NaN \<Rightarrow> (if x = Finite 1 then Finite 1 else NaN)
      | Finite b \<Rightarrow>
          if b = 0 then Finite 1
          else (case x of
                  NaN \<Rightarrow> NaN
                | Finite a \<Rightarrow>
                    if 0 < a then fin (a powr b)
                    else if a = 0 then (if 0 < b then Finite 0 else PInf)
                    else if b \<in> \<int> then fin ((if even \<lfloor>b\<rfloor> then 1 else - 1) * (\<bar>a\<bar> powr b))
                    else NaN
                | PInf \<Rightarrow> if 0 < b then PInf else Finite 0
                | NInf \<Rightarrow> if 0 < b then (if b \<in> \<int> \<and> odd \<lfloor>b\<rfloor> then NInf else PInf)
                          else Finite 0)
      | PInf \<Rightarrow>
          (case x of
             NaN \<Rightarrow> NaN
           | Finite a \<Rightarrow> if \<bar>a\<bar> < 1 then Finite 0 else if \<bar>a\<bar> = 1 then Finite 1 else PInf
           | _ \<Rightarrow> PInf)
      | NInf \<Rightarrow>
          (case x of
             NaN \<Rightarrow> NaN
           | Finite a \<Rightarrow> if \<bar>a\<bar> < 1 then PInf else if \<bar>a\<bar> = 1 then Finite 1 else Finite 0
           | _ \<Rightarrow> Finite 0))"

text \<open>\<^verbatim>\<open>np.sum\<close> of a short array adds from the left.\<close>

definition dsum :: "double list \<Rightarrow> double" where
  "dsum xs = foldl dadd (Finite 0) xs"

fun dpos :: "double \<Rightarrow> bool" where
  "dpos (Finite a) = (0 < a)"
| "dpos PInf = True"
| "dpos x = False"

fun dzero :: "double \<Rightarrow> bool" where
  "dzero (Finite a) = (a = 0)"
| "dzero x = False"

definition double_ops :: "double float_ops" where
  "double_ops =
     \<lparr>fadd = dadd, fsub = dsub, fmul = dmul, fdiv = ddiv, fpow = dpow, fmax = dmax,
      fsum = dsum, fint = (\<lambda>i. fin (of_int i)), fpos = dpos, fzero = dzero\<rparr>"

subsection \<open>Arithmetic without rounding\<close>

text \<open>
  The same operations over the reals, with no rounding, no infinity and no nan: the
  arithmetic in which a rate times a quotient is a product by one multiplier. The power is
  \<open>powr\<close>, which is the power for a positive base, the only case in which \<open>apply\<close>
  computes one.
\<close>

definition exact_ops :: "real float_ops" where
  "exact_ops =
     \<lparr>fadd = (+), fsub = (-), fmul = (*), fdiv = (/), fpow = (powr), fmax = max,
      fsum = sum_list, fint = of_int, fpos = (\<lambda>x. 0 < x), fzero = (\<lambda>x. x = 0)\<rparr>"

text \<open>
  The double nearest to one tenth, Python's \<open>0.1\<close>: \<open>3602879701896397 / 2^55\<close>.
\<close>

definition tenth :: real where
  "tenth = 3602879701896397 / 36028797018963968"

subsection \<open>A concrete day\<close>

text \<open>
  A small simulation on its day 1: four people, two of them exposed so far and one
  infectious, seven exposed reported for day 0 and four new infections (the last entry of
  that array is 6); five contact layers, at the rates of the day before. The estimator of
  the example keeps the list of its estimates of the infectious sub-states and appends
  the observed infectious count at each update; the controller asks for a fixed number
  \<open>c\<close> of new exposures. The saved baseline has the rate 6 for \<open>h\<close> and 2 for the other
  layers, and \<open>beta0 = 2\<close>.
\<close>

definition example_deps :: "double \<Rightarrow> (double list, double) deps" where
  "example_deps c =
     \<lparr>kalman_update = (\<lambda>k E I u. k @ [I]), kalman_Ihat = (\<lambda>k. k), kalman_EIhat = (\<lambda>k. k),
      get_control = (\<lambda>Xu. c)\<rparr>"

definition example_layers :: "string \<rightharpoonup> double" where
  "example_layers =
     [''h'' \<mapsto> Finite 6, ''s'' \<mapsto> Finite 2, ''w'' \<mapsto> Finite 2, ''c'' \<mapsto> Finite 2,
      ''l'' \<mapsto> Finite 2]"

definition yesterday_layers :: "string \<rightharpoonup> double" where
  "yesterday_layers =
     [''h'' \<mapsto> Finite 3, ''s'' \<mapsto> Finite 1, ''w'' \<mapsto> Finite 1, ''c'' \<mapsto> Finite 1,
      ''l'' \<mapsto> Finite 1]"

definition example_self :: "(double list, double) controller_intervention" where
  "example_self =
     \<lparr>verbose = False, targets = [''infected'' \<mapsto> Finite 5], SEIR_Ipow = Some (Finite 1),
      u_k = [Finite 2, Finite 2, Finite 2], start_day = 0, Kalman = [Finite 1],
      integrated_err = Finite 0, beta0 = Finite 2, beta_layer0 = example_layers\<rparr>"

definition example_sim :: "double sim" where
  "example_sim =
     \<lparr>sim_t = 1, results_n_exposed = [Finite 7, Finite 0, Finite 0],
      results_new_infections = [Finite 4, Finite 0, Finite 6],
      scaled_pop_size = Finite 4,
      people_date_exposed = [Some (Finite 0), Some (Finite 0), None, None],
      people_infectious = [True, False, False, False], pars_beta = Finite 2,
      pars_beta_layer = yesterday_layers\<rparr>"

text \<open>The same intervention with a negative estimate of the infectious sub-state.\<close>

definition example_negative :: "(double list, double) controller_intervention" where
  "example_negative = example_self\<lparr>Kalman := [Finite (- 3)]\<rparr>"

text \<open>
  The same again with \<open>beta0 = 0.1\<close> and the baseline rates 3 for \<open>h\<close> and 1 for the
  other layers.
\<close>

definition example_tenth :: "(double list, double) controller_intervention" where
  "example_tenth = example_negative\<lparr>beta0 := Finite tenth, beta_layer0 := yesterday_layers\<rparr>"

section \<open>Properties of TransitionMatrix\<close>

subsection \<open>The size computed from the length\<close>

lemma isqrt_bounds: "isqrt m * isqrt m \<le> m \<and> m < Suc (isqrt m) * Suc (isqrt m)"
  by (induction m) (auto simp: Let_def)

lemma isqrt_unique:
  assumes "r * r \<le> m" and "m < Suc r * Suc r"
  shows "isqrt m = r"
proof (rule ccontr)
  assume ne: "isqrt m \<noteq> r"
  have lo: "isqrt m * isqrt m \<le> m" and hi: "m < Suc (isqrt m) * Suc (isqrt m)"
    using isqrt_bounds [of m] by auto
  show False
  proof (cases "isqrt m < r")
    case True
    then have "Suc (isqrt m) \<le> r" by simp
    then have "Suc (isqrt m) * Suc (isqrt m) \<le> r * r" by (intro mult_le_mono)
    with assms(1) hi show False by linarith
  next
    case False
    with ne have "Suc r \<le> isqrt m" by simp
    then have "Suc r * Suc r \<le> isqrt m * isqrt m" by (intro mult_le_mono)
    with assms(2) lo show False by linarith
  qed
qed

lemma two_tri: "2 * tri n = n * Suc n"
  unfolding tri_def by simp

lemma tri_Suc: "tri (Suc n) = tri n + Suc n"
proof -
  have "2 * tri (Suc n) = 2 * tri n + 2 * Suc n"
    by (simp only: two_tri) simp
  then show ?thesis by simp
qed

lemma tri_mono: "i \<le> n \<Longrightarrow> tri i \<le> tri n"
  by (induction n) (auto simp: tri_Suc le_Suc_eq)

lemma tri_root_tri: "tri_root (tri n) = n"
proof -
  have "1 + 8 * tri n = Suc (2 * n) * Suc (2 * n)"
    using two_tri [of n] by (simp add: algebra_simps)
  moreover have "isqrt (Suc (2 * n) * Suc (2 * n)) = Suc (2 * n)"
    by (rule isqrt_unique) simp_all
  ultimately show ?thesis by (simp add: tri_root_def)
qed

lemma tri_tri_root_le: "tri (tri_root k) \<le> k"
proof -
  define r where "r = isqrt (1 + 8 * k)"
  define n where "n = tri_root k"
  have lo: "r * r \<le> 1 + 8 * k" and hi: "1 + 8 * k < Suc r * Suc r"
    using isqrt_bounds [of "1 + 8 * k"] by (auto simp: r_def)
  have "r \<noteq> 0" using hi by (cases r) auto
  then have "Suc (2 * n) \<le> r" by (simp add: n_def tri_root_def r_def) 
  then have "Suc (2 * n) * Suc (2 * n) \<le> r * r" by (intro mult_le_mono)
  with lo have "Suc (2 * n) * Suc (2 * n) \<le> 1 + 8 * k" by linarith
  then have "4 * (n * Suc n) \<le> 8 * k" by (simp add: algebra_simps)
  then have "2 * tri n \<le> 2 * k" unfolding two_tri by simp
  then show ?thesis by (simp add: n_def)
qed

lemma k_lt_tri_Suc_tri_root: "k < tri (Suc (tri_root k))"
proof -
  define r where "r = isqrt (1 + 8 * k)"
  define n where "n = tri_root k"
  have hi: "1 + 8 * k < Suc r * Suc r"
    using isqrt_bounds [of "1 + 8 * k"] by (auto simp: r_def)
  have "r \<noteq> 0" using hi by (cases r) auto
  then have "Suc r \<le> 2 * n + 3" by (simp add: n_def tri_root_def r_def)
  then have "Suc r * Suc r \<le> (2 * n + 3) * (2 * n + 3)" by (intro mult_le_mono)
  with hi have "1 + 8 * k < (2 * n + 3) * (2 * n + 3)" by linarith
  then have "8 * k < 4 * (Suc n * Suc (Suc n))" by (simp add: algebra_simps)
  then have "2 * k < 2 * tri (Suc n)" unfolding two_tri by simp
  then show ?thesis by (simp add: n_def)
qed

lemma isqrt_floor_sqrt: "isqrt m = nat \<lfloor>sqrt (real m)\<rfloor>"
proof (rule isqrt_unique)
  let ?r = "nat \<lfloor>sqrt (real m)\<rfloor>"
  have le: "real ?r \<le> sqrt (real m)" by simp
  have lt: "sqrt (real m) < real (Suc ?r)" by simp linarith
  from le have "real ?r * real ?r \<le> sqrt (real m) * sqrt (real m)"
    by (intro mult_mono) auto
  then have "real (?r * ?r) \<le> real m" by simp
  then show "?r * ?r \<le> m" by (simp only: of_nat_le_iff)
  from lt have "sqrt (real m) * sqrt (real m) < real (Suc ?r) * real (Suc ?r)"
    by (intro mult_strict_mono') auto
  then have "real m < real (Suc ?r * Suc ?r)" by (simp add: algebra_simps)
  then show "m < Suc ?r * Suc ?r" by (simp only: of_nat_less_iff)
qed

lemma tri_root_floor:
  "tri_root k = nat \<lfloor>(- 1 + sqrt (real (1 + 8 * k))) / 2\<rfloor>"
proof -
  let ?s = "sqrt (real (1 + 8 * k))"
  have s1: "1 \<le> \<lfloor>?s\<rfloor>" by simp
  have "\<lfloor>(- 1 + ?s) / 2\<rfloor> = \<lfloor>- 1 + ?s\<rfloor> div 2"
    using floor_divide_real_eq_div [of 2 "- 1 + ?s"] by simp
  also have "\<dots> = (\<lfloor>?s\<rfloor> - 1) div 2"
    by (simp add: add.commute [of "- 1"])
  finally have "nat \<lfloor>(- 1 + ?s) / 2\<rfloor> = nat ((\<lfloor>?s\<rfloor> - 1) div 2)"
    by simp
  also have "\<dots> = (nat \<lfloor>?s\<rfloor> - 1) div 2"
    using s1 by (simp add: nat_div_distrib nat_diff_distrib)
  finally show ?thesis
    by (simp add: tri_root_def isqrt_floor_sqrt)
qed

subsection \<open>Where the values land\<close>

lemma tril_indices_Suc:
  "tril_indices (Suc n) = tril_indices n @ map (\<lambda>j. (n, j)) [0..<Suc n]"
  by (simp add: tril_indices_def)

lemma length_tril_indices: "length (tril_indices n) = tri n"
proof (induction n)
  case 0
  show ?case by (simp add: tril_indices_def tri_def)
next
  case (Suc n)
  then show ?case by (simp add: tril_indices_Suc tri_Suc)
qed

lemma set_tril_indices: "set (tril_indices n) = {(i, j). j \<le> i \<and> i < n}"
proof (induction n)
  case 0
  show ?case by (simp add: tril_indices_def)
next
  case (Suc n)
  show ?case
    unfolding tril_indices_Suc set_append Suc.IH
    by (auto simp: less_Suc_eq)
qed

lemma distinct_tril_indices: "distinct (tril_indices n)"
proof (induction n)
  case 0
  show ?case by (simp add: tril_indices_def)
next
  case (Suc n)
  have "distinct (map (\<lambda>j. (n, j)) [0..<Suc n])"
    by (simp add: distinct_map inj_on_def del: upt_Suc)
  with Suc show ?case
    unfolding tril_indices_Suc
    by (auto simp: set_tril_indices simp del: upt_Suc)
qed

lemma nth_tril_indices:
  "j \<le> i \<Longrightarrow> i < n \<Longrightarrow> tril_indices n ! (tri i + j) = (i, j)"
proof (induction n)
  case 0
  then show ?case by simp
next
  case (Suc n)
  show ?case
  proof (cases "i < n")
    case True
    then have "tri (Suc i) \<le> tri n" by (intro tri_mono) simp
    with Suc.prems have "tri i + j < length (tril_indices n)"
      by (simp add: length_tril_indices tri_Suc)
    then show ?thesis
      using Suc.IH [OF Suc.prems(1) True]
      by (simp add: tril_indices_Suc nth_append)
  next
    case False
    with Suc.prems have [simp]: "i = n" by simp
    show ?thesis
      using Suc.prems(1)
      by (simp add: tril_indices_Suc nth_append length_tril_indices del: upt_Suc)
  qed
qed

lemma ravel_inj:
  "j < n \<Longrightarrow> j' < n \<Longrightarrow> i * n + j = i' * n + j' \<Longrightarrow> i = i' \<and> j = (j'::nat)"
proof -
  assume a: "j < n" "j' < n" "i * n + j = i' * n + j'"
  have "(i * n + j) div n = i" and "(i' * n + j') div n = i'"
    using a(1,2) by simp_all
  with a(3) have "i = i'" by metis
  with a(3) show ?thesis by simp
qed

lemma ravel_tril_indices:
  "ravel_multi_index (tril_indices n) (n, n) = Inr (map (\<lambda>(i, j). i * n + j) (tril_indices n))"
  by (auto simp: ravel_multi_index_def list_all_iff set_tril_indices)

lemma distinct_ravel: "distinct (map (\<lambda>(i, j). i * n + j) (tril_indices n))"
  unfolding distinct_map
proof
  show "distinct (tril_indices n)" by (rule distinct_tril_indices)
  show "inj_on (\<lambda>(i, j). i * n + j) (set (tril_indices n))"
    by (auto simp: inj_on_def set_tril_indices dest: ravel_inj [rotated 2])
qed

lemma put_fold:
  assumes "distinct ind" and "\<forall>i\<in>set ind. i < length a" and "k \<le> length ind"
  shows "length (fold (\<lambda>t a'. a'[ind ! t := f t]) [0..<k] a) = length a
       \<and> (\<forall>t<k. fold (\<lambda>t a'. a'[ind ! t := f t]) [0..<k] a ! (ind ! t) = f t)
       \<and> (\<forall>m. m \<notin> set ind \<longrightarrow> fold (\<lambda>t a'. a'[ind ! t := f t]) [0..<k] a ! m = a ! m)"
  using assms(3)
proof (induction k)
  case 0
  show ?case by simp
next
  case (Suc k)
  let ?r = "fold (\<lambda>t a'. a'[ind ! t := f t]) [0..<k] a"
  have IH: "length ?r = length a" "\<forall>t<k. ?r ! (ind ! t) = f t"
    "\<forall>m. m \<notin> set ind \<longrightarrow> ?r ! m = a ! m"
    using Suc by auto
  have step: "fold (\<lambda>t a'. a'[ind ! t := f t]) [0..<Suc k] a = ?r[ind ! k := f k]"
    by simp
  have k: "k < length ind" using Suc.prems by simp
  then have bound: "ind ! k < length ?r" using assms(2) IH(1) by simp
  have ne: "ind ! t \<noteq> ind ! k" if "t < k" for t
    using that k assms(1) by (simp add: nth_eq_iff_index_eq)
  have mem: "ind ! k \<in> set ind" using k by simp
  show ?case
    unfolding step
  proof (intro conjI allI impI)
    show "length (?r[ind ! k := f k]) = length a" using IH(1) by simp
  next
    fix t assume t: "t < Suc k"
    show "?r[ind ! k := f k] ! (ind ! t) = f t"
    proof (cases "t = k")
      case True
      then show ?thesis using bound by simp
    next
      case False
      with t have "t < k" by simp
      then show ?thesis using IH(2) ne [of t] by simp
    qed
  next
    fix m assume "m \<notin> set ind"
    then show "?r[ind ! k := f k] ! m = a ! m"
      using IH(3) mem by (metis nth_list_update_neq)
  qed
qed

lemma nth_reshape:
  "i < n \<Longrightarrow> j < n \<Longrightarrow> length flat = n * n \<Longrightarrow> reshape n n flat ! i ! j = flat ! (i * n + j)"
  by (simp add: reshape_def)

lemma length_reshape_row:
  assumes "i < n" and "length flat = n * n"
  shows "length (reshape n n flat ! i) = n"
proof -
  have "Suc i * n \<le> n * n" using assms(1) by (intro mult_le_mono) simp_all
  then show ?thesis using assms by (simp add: reshape_def)
qed

lemma full_eq: "full p = Inr (tril_matrix (tri_root (length p)) p)"
proof (cases "p = []")
  case True
  have "tri_root 0 = 0" by (simp add: tri_root_def)
  with True show ?thesis
    by (simp add: full_def ravel_multi_index_def tril_indices_def np_put_def reshape_def
        tril_matrix_def)
next
  case False
  define n where "n = tri_root (length p)"
  define ind where "ind = map (\<lambda>(i, j). i * n + j) (tril_indices n)"
  define a where "a = replicate (n * n) (0::real)"
  define f where "f = (\<lambda>t. p ! (t mod length p))"
  define res where "res = fold (\<lambda>t a'. a'[ind ! t := f t]) [0..<length ind] a"
  have len_ind: "length ind = tri n" by (simp add: ind_def length_tril_indices)
  have tri_le: "tri n \<le> length p" unfolding n_def by (rule tri_tri_root_le)
  have dist: "distinct ind" unfolding ind_def by (rule distinct_ravel)
  have bounds: "\<forall>i\<in>set ind. i < length a"
  proof
    fix m assume "m \<in> set ind"
    then obtain i j where ij: "j \<le> i" "i < n" "m = i * n + j"
      by (auto simp: ind_def set_tril_indices)
    then have "i * n + j < i * n + n" by simp
    also have "\<dots> = Suc i * n" by simp
    also have "\<dots> \<le> n * n" using ij(2) by (intro mult_le_mono) simp_all
    finally show "m < length a" by (simp add: ij a_def)
  qed
  have inv: "length res = length a" "\<forall>t<length ind. res ! (ind ! t) = f t"
    "\<forall>m. m \<notin> set ind \<longrightarrow> res ! m = a ! m"
    using put_fold [OF dist bounds le_refl, of f] by (auto simp: res_def)
  have put: "np_put a ind p = Inr res"
    using False bounds
    by (auto simp: np_put_def res_def f_def list_all_iff)
  have len_res: "length res = n * n" using inv(1) by (simp add: a_def)
  have entry: "res ! (i * n + j) = (if j \<le> i then p ! (tri i + j) else 0)"
    if "i < n" "j < n" for i j
  proof (cases "j \<le> i")
    case True
    have t: "tri i + j < length ind"
    proof -
      have "tri (Suc i) \<le> tri n" using that(1) by (intro tri_mono) simp
      with True show ?thesis by (simp add: len_ind tri_Suc)
    qed
    have "ind ! (tri i + j) = i * n + j"
      using t True that(1) by (simp add: ind_def nth_tril_indices length_tril_indices)
    then have "res ! (i * n + j) = f (tri i + j)" using inv(2) t by metis
    also have "\<dots> = p ! (tri i + j)" using t tri_le by (simp add: f_def len_ind)
    finally show ?thesis using True by simp
  next
    case False
    have "i * n + j \<notin> set ind"
    proof
      assume "i * n + j \<in> set ind"
      then obtain i' j' where ij: "j' \<le> i'" "i' < n" "i * n + j = i' * n + j'"
        by (auto simp: ind_def set_tril_indices)
      then have "j' < n" by simp
      from ravel_inj [OF that(2) this ij(3)] ij(1) False show False by simp
    qed
    then have "res ! (i * n + j) = a ! (i * n + j)" using inv(3) by simp
    also have "\<dots> = 0"
    proof -
      have "i * n + j < i * n + n" using that(2) by simp
      also have "\<dots> = Suc i * n" by simp
      also have "\<dots> \<le> n * n" using that(1) by (intro mult_le_mono) simp_all
      finally show ?thesis by (simp add: a_def)
    qed
    finally show ?thesis using False by simp
  qed
  have "reshape n n res = tril_matrix n p"
  proof (rule nth_equalityI)
    show "length (reshape n n res) = length (tril_matrix n p)"
      by (simp add: reshape_def tril_matrix_def)
  next
    fix i assume "i < length (reshape n n res)"
    then have i: "i < n" by (simp add: reshape_def)
    show "reshape n n res ! i = tril_matrix n p ! i"
    proof (rule nth_equalityI)
      show "length (reshape n n res ! i) = length (tril_matrix n p ! i)"
        using i length_reshape_row [OF i len_res] by (simp add: tril_matrix_def)
    next
      fix j assume "j < length (reshape n n res ! i)"
      then have j: "j < n" using length_reshape_row [OF i len_res] by simp
      show "reshape n n res ! i ! j = tril_matrix n p ! i ! j"
        using nth_reshape [OF i j len_res] entry [OF i j] i j
        by (simp add: tril_matrix_def)
    qed
  qed
  then show ?thesis
    using put
    by (simp add: full_def Let_def ravel_tril_indices flip: n_def ind_def a_def)
qed

subsection \<open>Flattening and expanding\<close>

lemma flatten_prefix:
  assumes "\<forall>i<m. m \<le> length (L ! i)"
  shows "length (concat (map (\<lambda>i. take (Suc i) (L ! i)) [0..<m])) = tri m
       \<and> (\<forall>i<m. \<forall>j\<le>i. concat (map (\<lambda>i. take (Suc i) (L ! i)) [0..<m]) ! (tri i + j) = L ! i ! j)"
  using assms
proof (induction m)
  case 0
  show ?case by (simp add: tri_def)
next
  case (Suc m)
  let ?F = "\<lambda>m. concat (map (\<lambda>i. take (Suc i) (L ! i)) [0..<m])"
  have "\<forall>i<m. m \<le> length (L ! i)"
    using Suc.prems by (auto simp: less_Suc_eq Suc_le_eq intro: less_imp_le)
  from Suc.IH [OF this]
  have IH: "length (?F m) = tri m" "\<forall>i<m. \<forall>j\<le>i. ?F m ! (tri i + j) = L ! i ! j"
    by auto
  have step: "?F (Suc m) = ?F m @ take (Suc m) (L ! m)" by simp
  have row: "Suc m \<le> length (L ! m)" using Suc.prems by simp
  show ?case
    unfolding step
  proof (intro conjI allI impI)
    show "length (?F m @ take (Suc m) (L ! m)) = tri (Suc m)"
      using IH(1) row by (simp add: tri_Suc)
  next
    fix i j assume i: "i < Suc m" and j: "j \<le> i"
    show "(?F m @ take (Suc m) (L ! m)) ! (tri i + j) = L ! i ! j"
    proof (cases "i < m")
      case True
      then have "tri (Suc i) \<le> tri m" by (intro tri_mono) simp
      with j have "tri i + j < length (?F m)" by (simp add: IH(1) tri_Suc)
      then show ?thesis using IH(2) True j by (simp add: nth_append)
    next
      case False
      with i have "i = m" by simp
      then show ?thesis using j IH(1) by (simp add: nth_append)
    qed
  qed
qed

lemma full_flatten_tril:
  assumes "lower_triangular n L"
  shows "full (flatten_tril L) = Inr L"
proof -
  have len: "length L = n" and rows: "\<And>i. i < n \<Longrightarrow> length (L ! i) = n"
    and up: "\<And>i j. i < n \<Longrightarrow> i < j \<Longrightarrow> j < n \<Longrightarrow> L ! i ! j = 0"
    using assms by (auto simp: lower_triangular_def list_all_iff)
  have pre: "\<forall>i<n. n \<le> length (L ! i)" using rows by simp
  have flen: "length (flatten_tril L) = tri n"
    and fnth: "\<And>i j. i < n \<Longrightarrow> j \<le> i \<Longrightarrow> flatten_tril L ! (tri i + j) = L ! i ! j"
    using flatten_prefix [OF pre] by (auto simp: flatten_tril_def len)
  have "tril_matrix n (flatten_tril L) = L"
  proof (rule nth_equalityI)
    show "length (tril_matrix n (flatten_tril L)) = length L"
      by (simp add: tril_matrix_def len)
  next
    fix i assume "i < length (tril_matrix n (flatten_tril L))"
    then have i: "i < n" by (simp add: tril_matrix_def)
    show "tril_matrix n (flatten_tril L) ! i = L ! i"
    proof (rule nth_equalityI)
      show "length (tril_matrix n (flatten_tril L) ! i) = length (L ! i)"
        using i rows by (simp add: tril_matrix_def)
    next
      fix j assume "j < length (tril_matrix n (flatten_tril L) ! i)"
      then have j: "j < n" using i by (simp add: tril_matrix_def)
      show "tril_matrix n (flatten_tril L) ! i ! j = L ! i ! j"
        using i j fnth [of i j] up [of i j] by (simp add: tril_matrix_def)
    qed
  qed
  then show ?thesis by (simp add: full_eq flen tri_root_tri)
qed

text \<open>
  C3. For every \<open>n \<ge> 1\<close> and every \<open>n\<close> by \<open>n\<close> lower-triangular matrix \<open>L\<close>,
  \<open>full\<close> applied to the row-major flattening of the lower triangle of \<open>L\<close> (its
  \<open>n (n + 1) / 2\<close> values) returns exactly \<open>L\<close>: the values stand at the
  lower-triangular positions in row-major order, and every position above the diagonal is
  zero.
\<close>

theorem full_roundtrip:
  assumes "0 < n" and "lower_triangular n L"
  shows "length (flatten_tril L) = n * (n + 1) div 2
       \<and> full (flatten_tril L) = Inr L
       \<and> full (flatten_tril L) = Inr (tril_matrix n (flatten_tril L))"
proof -
  have rows: "\<forall>i<n. n \<le> length (L ! i)" and len: "length L = n"
    using assms(2) by (auto simp: lower_triangular_def list_all_iff)
  have flen: "length (flatten_tril L) = tri n"
    using flatten_prefix [OF rows] by (simp add: flatten_tril_def len)
  have "full (flatten_tril L) = Inr (tril_matrix n (flatten_tril L))"
    by (simp add: full_eq flen tri_root_tri)
  with flen full_flatten_tril [OF assms(2)] show ?thesis
    by (simp add: tri_def)
qed

theorem full_roundtrip_witness:
  "0 < (2::nat) \<and> lower_triangular 2 [[1, 0], [2, 3]]
   \<and> flatten_tril [[1, 0], [2, 3]] = [1, 2, 3]
   \<and> full [1, 2, 3] = Inr [[1, 0], [2, 3]]"
proof -
  have lt: "lower_triangular 2 [[1, 0], [2, 3]]"
    by (simp add: lower_triangular_def numeral_2_eq_2)
  have fl: "flatten_tril [[1, 0], [2, 3]] = [1, 2, 3]"
    by (simp add: flatten_tril_def numeral_2_eq_2)
  show ?thesis
    using full_roundtrip [of 2 "[[1, 0], [2, 3]]"] lt fl by simp
qed

text \<open>
  C4, as the code has it. \<open>full\<close> has no check of the length and raises for no
  nonempty input: for a list of any length \<open>k \<ge> 1\<close> it returns the \<open>n\<close> by \<open>n\<close> matrix of the largest
  \<open>n\<close> with \<open>n (n + 1) / 2 \<le> k\<close>, filled from the first \<open>n (n + 1) / 2\<close> values;
  the values after them are ignored (none when \<open>k\<close> is triangular).
\<close>

theorem full_never_raises:
  assumes "p \<noteq> []"
  shows "full p = Inr (tril_matrix (tri_root (length p)) p)
       \<and> 0 < tri_root (length p)
       \<and> tri (tri_root (length p)) \<le> length p
       \<and> length p < tri (Suc (tri_root (length p)))
       \<and> full p = full (take (tri (tri_root (length p))) p)"
proof -
  have pos: "0 < tri_root (length p)"
  proof (rule ccontr)
    assume "\<not> 0 < tri_root (length p)"
    then have "tri_root (length p) = 0" by simp
    with k_lt_tri_Suc_tri_root [of "length p"] have "length p < tri (Suc 0)" by simp
    then show False using assms by (simp add: tri_def)
  qed
  let ?n = "tri_root (length p)"
  have le: "tri ?n \<le> length p" by (rule tri_tri_root_le)
  have "length (take (tri ?n) p) = tri ?n" using le by simp
  then have n': "tri_root (length (take (tri ?n) p)) = ?n"
    by (simp only: tri_root_tri)
  have "tril_matrix ?n (take (tri ?n) p) = tril_matrix ?n p"
    unfolding tril_matrix_def
  proof (intro map_cong refl)
    fix i j assume "i \<in> set [0..<?n]" and "j \<in> set [0..<?n]"
    then have i: "i < ?n" by simp
    show "(if j \<le> i then take (tri ?n) p ! (tri i + j) else 0)
        = (if j \<le> i then p ! (tri i + j) else 0)"
    proof (cases "j \<le> i")
      case True
      have "tri (Suc i) \<le> tri ?n" using i by (intro tri_mono) simp
      with True have "tri i + j < tri ?n" by (simp add: tri_Suc)
      then show ?thesis by simp
    next
      case False
      then show ?thesis by simp
    qed
  qed
  then have "full (take (tri ?n) p) = full p"
    by (simp only: full_eq n')
  with le pos k_lt_tri_Suc_tri_root [of "length p"] show ?thesis
    by (simp add: full_eq)
qed

theorem full_never_raises_witness:
  "[1, 2, 3, 4] \<noteq> ([] :: real list)
   \<and> full [1, 2, 3, 4] = Inr [[1, 0], [2, 3]]
   \<and> full [1, 2, 3, 4] = full [1, 2, 3]"
proof -
  have n: "tri_root 4 = 2" by code_simp
  have t: "tri 2 = 3" by (simp add: tri_def)
  have m: "tril_matrix 2 [1, 2, 3, 4] = [[1, 0], [2, 3]]"
    by (simp add: tril_matrix_def tri_def upt_rec [of 0] upt_rec [of 1] numeral_2_eq_2)
  have len: "length [1, 2, 3, 4 :: real] = 4" by simp
  note inst = full_never_raises [of "[1, 2, 3, 4]", unfolded len n t m]
  show ?thesis
    using inst by auto
qed

text \<open>
  C4 as stated fails: a list of two values, a length that is no triangular number, raises
  nothing. \<open>full\<close> returns the 1 by 1 matrix of the first value and drops the second.
\<close>

theorem full_nontriangular_counterexample:
  "full [1, 2] = Inr [[1]] \<and> (\<forall>n. length [1::real, 2] \<noteq> n * (n + 1) div 2)"
proof
  show "full [1, 2] = Inr [[1]]"
    by code_simp
  show "\<forall>n. length [1::real, 2] \<noteq> n * (n + 1) div 2"
  proof
    fix n :: nat
    show "length [1::real, 2] \<noteq> n * (n + 1) div 2"
    proof (cases "n \<le> 1")
      case True
      then have "n = 0 \<or> n = 1" by auto
      then show ?thesis by auto
    next
      case False
      then have "2 \<le> n" by simp
      then have "2 * 3 \<le> n * (n + 1)" by (intro mult_le_mono) simp_all
      then have "3 \<le> n * (n + 1) div 2" by simp
      then show ?thesis by simp
    qed
  qed
qed

section \<open>Properties of SEIR\<close>

subsection \<open>The observability check\<close>

lemma after_simps [simp]:
  "after (Inl e) f = Inl e" "after (Inr a) f = f a"
  by (simp_all add: after_def)

lemma mat_mul_times:
  "columns (length Y) X \<Longrightarrow> mat_mul X Y = Inr (times X Y)"
  by (simp add: mat_mul_def times_def columns_def)

lemma columns_times:
  assumes "square m A" and "0 < m"
  shows "columns m (times X A)"
proof -
  from assms obtain y ys where "A = y # ys" and "length y = m"
    by (cases A) (auto simp: square_def)
  then show ?thesis
    by (simp add: times_def columns_def list_all_iff)
qed

lemma length_times: "length (times X A) = length X"
  by (simp add: times_def)

lemma columns_funpow:
  assumes "square m A" and "0 < m" and "columns m C"
  shows "columns m (((\<lambda>M. times M A) ^^ i) C)"
  by (induction i) (simp_all add: assms columns_times)

lemma length_funpow: "length (((\<lambda>M. times M A) ^^ i) C) = length C"
  by (induction i) (simp_all add: length_times)

lemma observability_loop_eq:
  assumes "square m A" and "0 < m"
  shows "columns m X \<Longrightarrow>
         observability_loop k A (Os @ [X])
           = Inr (Os @ map (\<lambda>i. ((\<lambda>M. times M A) ^^ i) X) [0..<Suc k])"
proof (induction k arbitrary: Os X)
  case 0
  show ?case by simp
next
  case (Suc k)
  have len: "length A = m" using assms(1) by (simp add: square_def)
  have mul: "mat_mul X A = Inr (times X A)"
    using Suc.prems by (simp add: mat_mul_times len)
  have next_cols: "columns m (times X A)" by (rule columns_times [OF assms])
  have shift: "map (\<lambda>i. ((\<lambda>M. times M A) ^^ i) (times X A)) [0..<Suc k]
             = map (\<lambda>i. ((\<lambda>M. times M A) ^^ i) X) [Suc 0..<Suc (Suc k)]"
    by (simp only: map_Suc_upt [symmetric] map_map o_def funpow_Suc_right) 
  have "observability_loop (Suc k) A (Os @ [X])
          = observability_loop k A ((Os @ [X]) @ [times X A])"
    by (simp add: mul)
  also have "\<dots> = Inr ((Os @ [X]) @ map (\<lambda>i. ((\<lambda>M. times M A) ^^ i) (times X A)) [0..<Suc k])"
    by (rule Suc.IH [OF next_cols])
  also have "(Os @ [X]) @ map (\<lambda>i. ((\<lambda>M. times M A) ^^ i) (times X A)) [0..<Suc k]
           = Os @ map (\<lambda>i. ((\<lambda>M. times M A) ^^ i) X) [0..<Suc (Suc k)]"
    unfolding shift by (simp add: upt_rec [of 0])
  finally show ?case .
qed

lemma vstack_columns:
  assumes "\<forall>M\<in>set Ms. columns m M" and "concat Ms \<noteq> []"
  shows "vstack Ms = Inr (concat Ms)"
proof -
  from assms(2) obtain r rows where c: "concat Ms = r # rows" by (cases "concat Ms") auto
  have "\<forall>x\<in>set (concat Ms). length x = m"
    using assms(1) by (auto simp: columns_def list_all_iff)
  with c have "length r = m" and "\<forall>x\<in>set rows. length x = m" by auto
  then show ?thesis by (simp add: vstack_def c list_all_iff)
qed

text \<open>
  C1, as the code has it. The observability check, run on a model object that holds \<open>A\<close>,
  \<open>C\<close> and \<open>nEIR\<close> (an \<open>A\<close> whose inner part is square of size \<open>m \<ge> 1\<close>, a
  nonempty \<open>C\<close> whose inner part has \<open>m\<close> columns, \<open>nEIR \<ge> 1\<close>), stacks
  \<open>C, C A, \<dots>, C A^(nEIR-1)\<close> of the E/I subsystem; it returns that matrix when its rank
  is \<open>nEIR\<close> and fails with an \<open>AssertionError\<close> otherwise. (The code has no
  \<open>ModelInvalidError\<close>; whether the constructor reaches the check is the subject of C2.)
\<close>

theorem check_observability_asserts_rank:
  assumes "self ''A'' = Some (VArr A_full)" and "self ''C'' = Some (VArr C_full)"
    and "self ''nEIR'' = Some (VInt n)"
    and "square m (map inner (inner A_full))" and "columns m (map inner C_full)"
    and "C_full \<noteq> []" and "0 < m" and "1 \<le> n"
  shows "check_observability rank self True
           = (if int (rank (observability_matrix (map inner C_full) (map inner (inner A_full)) (nat n))) = n
              then Inr (observability_matrix (map inner C_full) (map inner (inner A_full)) (nat n))
              else Inl AssertionError)"
proof -
  let ?A = "map inner (inner A_full)" and ?C = "map inner C_full"
  let ?pow = "\<lambda>i. ((\<lambda>M. times M ?A) ^^ i) ?C"
  have k: "Suc (nat (n - 1)) = nat n" using assms(8) by simp
  have loop: "observability_loop (nat (n - 1)) ?A [?C] = Inr (map ?pow [0..<nat n])"
    using observability_loop_eq [OF assms(4,7,5), of "nat (n - 1)" "[]"]
    by (simp only: k append_Nil)
  have cols: "\<forall>M\<in>set (map ?pow [0..<nat n]). columns m M"
    using columns_funpow [OF assms(4,7,5)] by auto
  have "?pow 0 \<noteq> []" using assms(6) by simp
  moreover have "0 < nat n" using assms(8) by simp
  ultimately have "concat (map ?pow [0..<nat n]) \<noteq> []"
    by (auto simp: upt_rec [of 0])
  from vstack_columns [OF cols this]
  have stack: "vstack (map ?pow [0..<nat n]) = Inr (observability_matrix ?C ?A (nat n))"
    by (simp add: observability_matrix_def)
  show ?thesis
    using assms(1,2,3)
    by (simp add: check_observability_def getattr_def as_array_def loop stack)
qed

subsection \<open>The block matrix conserves mass\<close>

text \<open>
  What lines 34, 35 and 40--44 compute from square \<open>EI\<close> and \<open>IR\<close>, were they given
  the sizes \<open>nEI\<close>, \<open>nIR\<close> of the two matrices: every column of the block matrix sums
  to one. (\<open>_build\<close> itself stops at line 33.)
\<close>

lemma colsum_append: "colsum j (M @ N) = colsum j M + colsum j N"
  by (simp add: colsum_def)

lemma colsum_single: "colsum j [r] = r ! j"
  by (simp add: colsum_def)

lemma colsum_map: "colsum j (map f M) = sum_list (map (\<lambda>row. f row ! j) M)"
  by (simp add: colsum_def o_def)

lemma col_sums_nth:
  "M \<noteq> [] \<Longrightarrow> j < length (hd M) \<Longrightarrow> col_sums M ! j = colsum j M"
  by (cases M) (simp_all add: col_sums_def colsum_def)

lemma length_col_sums: "square m M \<Longrightarrow> 0 < m \<Longrightarrow> length (col_sums M) = m"
  by (cases M) (auto simp: col_sums_def square_def)

lemma hstack4_rows:
  assumes "length b = length a" and "length c = length a" and "length d = length a"
  shows "hstack [a, b, c, d] = Inr (map (\<lambda>i. a ! i @ b ! i @ c ! i @ d ! i) [0..<length a])"
  using assms by (simp add: hstack_def)

lemma sum_list_zero: "(\<And>x. x \<in> set xs \<Longrightarrow> f x = 0) \<Longrightarrow> sum_list (map f xs) = (0::real)"
  by (induction xs) simp_all

lemma sum_list_if:
  "sum_list (map (\<lambda>i. if c then f i else g i) xs)
     = (if c then sum_list (map f xs) else (sum_list (map g xs) :: real))"
  by simp

lemma assemble_A_explicit:
  assumes "square nE EI" and "square nI IR" and "length belowEI = nI"
    and "list_all (\<lambda>row. length row = nE) belowEI" and "length belowIR = nI"
  shows "assemble_A EI IR belowEI belowIR nE nI
           = Inr ([1 # replicate nE 0 @ replicate nI 0 @ [0]]
                  @ map (\<lambda>i. 0 # EI ! i @ replicate nI 0 @ [0]) [0..<nE]
                  @ map (\<lambda>i. 0 # belowEI ! i @ IR ! i @ [0]) [0..<nI]
                  @ [0 # replicate nE 0 @ belowIR @ [1]])"
proof -
  have lE: "length EI = nE" and rE: "\<And>i. i < nE \<Longrightarrow> length (EI ! i) = nE"
    using assms(1) by (auto simp: square_def list_all_iff)
  have lI: "length IR = nI" and rI: "\<And>i. i < nI \<Longrightarrow> length (IR ! i) = nI"
    using assms(2) by (auto simp: square_def list_all_iff)
  have rB: "\<And>i. i < nI \<Longrightarrow> length (belowEI ! i) = nE"
    using assms(3,4) by (auto simp: list_all_iff)
  have h0: "hstack [[[1]], zeros 1 nE, zeros 1 nI, [[0]]]
              = Inr [1 # replicate nE 0 @ replicate nI 0 @ [0]]"
    by (simp add: hstack_def zeros_def)
  have h1: "hstack [zeros nE 1, EI, zeros nE nI, zeros nE 1]
              = Inr (map (\<lambda>i. 0 # EI ! i @ replicate nI 0 @ [0]) [0..<nE])"
    by (simp add: hstack_def zeros_def lE)
  have h2: "hstack [zeros nI 1, belowEI, IR, zeros nI 1]
              = Inr (map (\<lambda>i. 0 # belowEI ! i @ IR ! i @ [0]) [0..<nI])"
    by (simp add: hstack_def zeros_def lI assms(3))
  have h3: "hstack [[[0]], zeros 1 nE, [belowIR], [[1]]]
              = Inr [0 # replicate nE 0 @ belowIR @ [1]]"
    by (simp add: hstack_def zeros_def)
  have widths: "list_all (\<lambda>x. length x = Suc (nE + nI + 1))
                  (map (\<lambda>i. 0 # EI ! i @ replicate nI 0 @ [0]) [0..<nE]
                   @ map (\<lambda>i. 0 # belowEI ! i @ IR ! i @ [0]) [0..<nI]
                   @ [0 # replicate nE 0 @ belowIR @ [1]])"
    using rE rI rB assms(5) by (auto simp: list_all_iff)
  show ?thesis
    unfolding assemble_A_def h0 h1 h2 h3
    using widths by (simp add: vstack_def)
qed

lemma nth_framed:
  assumes "length e = nE" and "length i = nI" and "j < Suc (nE + nI + 1)"
  shows "(a # e @ i @ [b]) ! j
           = (if j = 0 then a else if j \<le> nE then e ! (j - 1)
              else if j \<le> nE + nI then i ! (j - 1 - nE) else b)"
proof (cases j)
  case 0
  then show ?thesis by simp
next
  case (Suc k)
  show ?thesis
  proof (cases "k < nE")
    case True
    then show ?thesis using Suc assms(1) by (simp add: nth_append)
  next
    case False
    then show ?thesis
      using Suc assms by (auto simp: nth_append not_less)
  qed
qed

lemma assemble_A_mass:
  assumes EI: "square nE EI" and IR: "square nI IR" and nE: "0 < nE" and nI: "0 < nI"
  defines "belowEI \<equiv> map (\<lambda>s. 1 - s) (col_sums EI) # replicate (nI - 1) (replicate nE 0)"
  defines "belowIR \<equiv> map (\<lambda>s. 1 - s) (col_sums IR)"
  shows "\<exists>A. assemble_A EI IR belowEI belowIR nE nI = Inr A
           \<and> length A = 2 + nE + nI
           \<and> (\<forall>j<2 + nE + nI. colsum j A = 1)"
proof -
  have lE: "length EI = nE" and rE: "\<And>i. i < nE \<Longrightarrow> length (EI ! i) = nE"
    using EI by (auto simp: square_def list_all_iff)
  have lI: "length IR = nI" and rI: "\<And>i. i < nI \<Longrightarrow> length (IR ! i) = nI"
    using IR by (auto simp: square_def list_all_iff)
  have EI_ne: "EI \<noteq> []" and IR_ne: "IR \<noteq> []" using lE lI nE nI by auto
  have hdE: "length (hd EI) = nE" using rE [of 0] nE EI_ne by (simp add: hd_conv_nth)
  have hdI: "length (hd IR) = nI" using rI [of 0] nI IR_ne by (simp add: hd_conv_nth)
  have lcE: "length (col_sums EI) = nE" by (rule length_col_sums [OF EI nE])
  have lcI: "length (col_sums IR) = nI" by (rule length_col_sums [OF IR nI])
  have lB: "length belowEI = nI" using nI by (simp add: belowEI_def)
  have rB: "list_all (\<lambda>row. length row = nE) belowEI"
    by (simp add: belowEI_def lcE list_all_iff)
  have rB': "\<And>i. i < nI \<Longrightarrow> length (belowEI ! i) = nE"
    using lB rB by (auto simp: list_all_iff)
  have lR: "length belowIR = nI" by (simp add: belowIR_def lcI)
  let ?S = "[1 # replicate nE 0 @ replicate nI 0 @ [0]]"
  let ?E = "map (\<lambda>i. 0 # EI ! i @ replicate nI 0 @ [0]) [0..<nE]"
  let ?I = "map (\<lambda>i. 0 # belowEI ! i @ IR ! i @ [0]) [0..<nI]"
  let ?R = "[0 # replicate nE 0 @ belowIR @ [1]]"
  have A: "assemble_A EI IR belowEI belowIR nE nI = Inr (?S @ ?E @ ?I @ ?R)"
    by (rule assemble_A_explicit [OF EI IR lB rB lR])
  have colE: "sum_list (map (\<lambda>i. EI ! i ! k) [0..<nE]) = colsum k EI" for k
  proof -
    have "map (\<lambda>i. EI ! i ! k) [0..<nE] = map (\<lambda>row. row ! k) (map (\<lambda>i. EI ! i) [0..<length EI])"
      by (simp add: lE)
    then show ?thesis by (simp only: map_nth colsum_def)
  qed
  have colI: "sum_list (map (\<lambda>i. IR ! i ! k) [0..<nI]) = colsum k IR" for k
  proof -
    have "map (\<lambda>i. IR ! i ! k) [0..<nI] = map (\<lambda>row. row ! k) (map (\<lambda>i. IR ! i) [0..<length IR])"
      by (simp add: lI)
    then show ?thesis by (simp only: map_nth colsum_def)
  qed
  have colB: "sum_list (map (\<lambda>i. belowEI ! i ! k) [0..<nI]) = 1 - colsum k EI" if "k < nE" for k
  proof -
    obtain n' where n': "nI = Suc n'" using nI by (cases nI) auto
    have "map (\<lambda>i. belowEI ! i ! k) [0..<nI] = map (\<lambda>row. row ! k) (map (\<lambda>i. belowEI ! i) [0..<length belowEI])"
      by (simp add: lB)
    then have "sum_list (map (\<lambda>i. belowEI ! i ! k) [0..<nI]) = colsum k belowEI"
      by (simp only: map_nth colsum_def)
    also have "\<dots> = (1 - col_sums EI ! k) + colsum k (replicate n' (replicate nE 0))"
      using that by (simp add: belowEI_def n' colsum_def lcE)
    also have "colsum k (replicate n' (replicate nE 0)) = 0"
      using that by (simp add: colsum_def sum_list_replicate)
    also have "col_sums EI ! k = colsum k EI"
      using that by (simp add: col_sums_nth EI_ne hdE)
    finally show ?thesis by simp
  qed
  have "colsum j (?S @ ?E @ ?I @ ?R) = 1" if j: "j < 2 + nE + nI" for j
  proof -
    have j': "j < Suc (nE + nI + 1)" using j by simp
    have cS: "colsum j ?S = (if j = 0 then 1 else 0)"
      using nth_framed [of "replicate nE 0" nE "replicate nI 0" nI j 1 0] j'
      by (auto simp: colsum_def nth_append)
    have cE: "colsum j ?E = (if 1 \<le> j \<and> j \<le> nE then colsum (j - 1) EI else 0)"
    proof -
      have "colsum j ?E = sum_list (map (\<lambda>i. (0 # EI ! i @ replicate nI 0 @ [0]) ! j) [0..<nE])"
        by (simp add: colsum_def o_def)
      also have "\<dots> = sum_list (map (\<lambda>i. if 1 \<le> j \<and> j \<le> nE then EI ! i ! (j - 1) else 0) [0..<nE])"
      proof (rule arg_cong [where f = sum_list], rule map_cong [OF refl])
        fix i assume "i \<in> set [0..<nE]"
        then have "length (EI ! i) = nE" using rE by simp
        from nth_framed [OF this _ j', of "replicate nI 0" 0 0]
        show "(0 # EI ! i @ replicate nI 0 @ [0]) ! j
                = (if 1 \<le> j \<and> j \<le> nE then EI ! i ! (j - 1) else 0)"
          using j' by (auto simp: not_le)
      qed
      also have "\<dots> = (if 1 \<le> j \<and> j \<le> nE then colsum (j - 1) EI else 0)"
        unfolding sum_list_if using colE [of "j - 1"] by simp
      finally show ?thesis .
    qed
    have cI: "colsum j ?I = (if 1 \<le> j \<and> j \<le> nE then 1 - colsum (j - 1) EI
                             else if nE < j \<and> j \<le> nE + nI then colsum (j - 1 - nE) IR else 0)"
    proof -
      have "colsum j ?I = sum_list (map (\<lambda>i. (0 # belowEI ! i @ IR ! i @ [0]) ! j) [0..<nI])"
        by (simp add: colsum_def o_def)
      also have "\<dots> = sum_list (map (\<lambda>i. if 1 \<le> j \<and> j \<le> nE then belowEI ! i ! (j - 1)
                             else if nE < j \<and> j \<le> nE + nI then IR ! i ! (j - 1 - nE) else 0) [0..<nI])"
      proof (rule arg_cong [where f = sum_list], rule map_cong [OF refl])
        fix i assume "i \<in> set [0..<nI]"
        then have "length (belowEI ! i) = nE" and "length (IR ! i) = nI" using rB' rI by simp_all
        from nth_framed [OF this j', of 0 0]
        show "(0 # belowEI ! i @ IR ! i @ [0]) ! j
                = (if 1 \<le> j \<and> j \<le> nE then belowEI ! i ! (j - 1)
                   else if nE < j \<and> j \<le> nE + nI then IR ! i ! (j - 1 - nE) else 0)"
          using j' by (auto simp: not_le)
      qed
      also have "\<dots> = (if 1 \<le> j \<and> j \<le> nE then 1 - colsum (j - 1) EI
                             else if nE < j \<and> j \<le> nE + nI then colsum (j - 1 - nE) IR else 0)"
      proof (cases "1 \<le> j \<and> j \<le> nE")
        case True
        then have "j - 1 < nE" by auto
        from colB [OF this] True show ?thesis unfolding sum_list_if by simp
      next
        case False
        then show ?thesis
          unfolding sum_list_if using colI [of "j - 1 - nE"] by auto
      qed
      finally show ?thesis .
    qed
    have cR: "colsum j ?R = (if nE < j \<and> j \<le> nE + nI then 1 - colsum (j - 1 - nE) IR
                             else if j = Suc (nE + nI) then 1 else 0)"
    proof -
      have "colsum j ?R = (0 # replicate nE 0 @ belowIR @ [1]) ! j" by (simp add: colsum_def)
      also have "\<dots> = (if j = 0 then 0 else if j \<le> nE then replicate nE 0 ! (j - 1)
              else if j \<le> nE + nI then belowIR ! (j - 1 - nE) else 1)"
        by (rule nth_framed [OF _ lR j']) simp
      also have "\<dots> = (if nE < j \<and> j \<le> nE + nI then 1 - colsum (j - 1 - nE) IR
                             else if j = Suc (nE + nI) then 1 else 0)"
        using j' by (auto simp: belowIR_def lcI col_sums_nth IR_ne hdI)
      finally show ?thesis .
    qed
    show ?thesis
      unfolding colsum_append cS cE cI cR using j' by auto
  qed
  with A show ?thesis by auto
qed

lemma set_row0_zeros:
  "0 < r \<Longrightarrow> length v = c \<Longrightarrow>
     set_row0 (zeros r c) v = Inr (v # replicate (r - 1) (replicate c 0))"
  by (cases r) (simp_all add: set_row0_def zeros_def)

subsection \<open>The two configurations, evaluated\<close>

lemma inner_simps [simp]:
  "inner [] = []" "inner [a] = []" "inner (a # b # xs) = butlast (b # xs)"
  by (simp_all add: inner_def)

lemma example_sub:
  "map inner (inner example_A) = [[1/2, 0], [1/2, 1/2]]"
  by (simp add: example_A_def)

lemma duplicated_sub:
  "map inner (inner duplicated_A) = [[1/2, 0, 0], [0, 1/2, 0], [1/2, 1/2, 1/2]]"
  by (simp add: duplicated_A_def)

lemma upt_3: "[0..<3] = [0, 1, 2]" "[0..<2] = [0, 1]"
  by (simp_all add: upt_rec)

lemma example_stack:
  "observability_matrix [[1, 1]] [[1/2, 0], [1/2, 1/2]] 2 = [[1, 1], [1, 1/2]]"
  by (simp add: observability_matrix_def times_def upt_3)

lemma duplicated_stack:
  "observability_matrix [[1, 1, 1]] [[1/2, 0, 0], [0, 1/2, 0], [1/2, 1/2, 1/2]] 3
     = [[1, 1, 1], [1, 1, 1/2], [3/4, 3/4, 1/4]]"
  by (simp add: observability_matrix_def times_def upt_3 eval_nat_numeral)

lemma example_rank: "matrix_rank [[1, 1], [1, 1/2]] = 2"
  by (simp add: first_nonzero_def eliminate_def upt_3)

lemma duplicated_rank: "matrix_rank [[1, 1, 1], [1, 1, 1/2], [3/4, 3/4, 1/4]] = 2"
  by (simp add: first_nonzero_def eliminate_def upt_3)

theorem check_observability_asserts_rank_witness:
  "example_model ''A'' = Some (VArr example_A)
   \<and> example_model ''C'' = Some (VArr [[0, 1, 1, 0]])
   \<and> example_model ''nEIR'' = Some (VInt 2)
   \<and> square 2 (map inner (inner example_A))
   \<and> columns 2 (map inner [[0, 1, 1, 0]])
   \<and> matrix_rank (observability_matrix [[1, 1]] [[1/2, 0], [1/2, 1/2]] 2) = 2
   \<and> check_observability matrix_rank example_model True = Inr [[1, 1], [1, 1/2]]"
proof -
  have a: "example_model ''A'' = Some (VArr example_A)"
    and c: "example_model ''C'' = Some (VArr [[0, 1, 1, 0]])"
    and n: "example_model ''nEIR'' = Some (VInt 2)"
    by (simp_all add: example_model_def)
  have sq: "square 2 (map inner (inner example_A))"
    by (simp add: example_sub square_def)
  have co: "columns 2 (map inner [[0, 1, 1, 0]])"
    by (simp add: columns_def)
  have r: "matrix_rank (observability_matrix [[1, 1]] [[1/2, 0], [1/2, 1/2]] 2) = 2"
    by (simp only: example_stack example_rank)
  have "check_observability matrix_rank example_model True = Inr [[1, 1], [1, 1/2]]"
    using check_observability_asserts_rank [OF a c n sq co, of matrix_rank] r
    by (simp add: example_sub example_stack)
  with a c n sq co r show ?thesis by simp
qed

text \<open>
  C1 as stated fails. For the observable configuration \<open>EI = IR = [[1/2]]\<close> (the stacked
  matrix has rank 2 of 2) construction does not succeed: it raises an \<open>AttributeError\<close>.
  For the rank-deficient configuration with two exposed stages of the same dynamics (rank
  2 of 3) construction raises the same \<open>AttributeError\<close>, and the check itself, run on
  the model object of that configuration, raises an \<open>AssertionError\<close>.
\<close>

theorem construction_counterexample:
  "assemble_A [[1/2]] [[1/2]] [[1/2]] [1/2] 1 1 = Inr example_A
   \<and> matrix_rank (observability_matrix [[1, 1]] (map inner (inner example_A)) 2) = 2
   \<and> SEIR_init matrix_rank (VInt 10) (VFloat 1) (VArr [[1/2]]) (VArr [[1/2]]) (VBool True)
       = Inl (AttributeError ''nIR'')
   \<and> assemble_A [[1/2, 0], [0, 1/2]] [[1/2]] [[1/2, 1/2]] [1/2] 2 1 = Inr duplicated_A
   \<and> matrix_rank (observability_matrix [[1, 1, 1]] (map inner (inner duplicated_A)) 3) = 2
   \<and> SEIR_init matrix_rank (VInt 10) (VFloat 1) (VArr [[1/2, 0], [0, 1/2]]) (VArr [[1/2]]) (VBool True)
       = Inl (AttributeError ''nIR'')
   \<and> check_observability matrix_rank duplicated_model True = Inl AssertionError"
proof -
  have a1: "assemble_A [[1/2]] [[1/2]] [[1/2]] [1/2] 1 1 = Inr example_A"
    by (simp add: assemble_A_def hstack_def vstack_def zeros_def example_A_def upt_3)
  have a2: "assemble_A [[1/2, 0], [0, 1/2]] [[1/2]] [[1/2, 1/2]] [1/2] 2 1 = Inr duplicated_A"
    by (simp add: assemble_A_def hstack_def vstack_def zeros_def duplicated_A_def upt_3
        eval_nat_numeral)
  have r1: "matrix_rank (observability_matrix [[1, 1]] (map inner (inner example_A)) 2) = 2"
    by (simp only: example_sub example_stack example_rank)
  have r2: "matrix_rank (observability_matrix [[1, 1, 1]] (map inner (inner duplicated_A)) 3) = 2"
    by (simp only: duplicated_sub duplicated_stack duplicated_rank)
  have i1: "SEIR_init matrix_rank (VInt 10) (VFloat 1) (VArr [[1/2]]) (VArr [[1/2]]) (VBool True)
       = Inl (AttributeError ''nIR'')"
    by (simp add: SEIR_init_def SEIR_build_def lookup_method_def SEIR_methods_def getattr_def)
  have i2: "SEIR_init matrix_rank (VInt 10) (VFloat 1) (VArr [[1/2, 0], [0, 1/2]]) (VArr [[1/2]])
              (VBool True) = Inl (AttributeError ''nIR'')"
    by (simp add: SEIR_init_def SEIR_build_def lookup_method_def SEIR_methods_def getattr_def)
  have d: "duplicated_model ''A'' = Some (VArr duplicated_A)"
    "duplicated_model ''C'' = Some (VArr [[0, 1, 1, 1, 0]])"
    "duplicated_model ''nEIR'' = Some (VInt 3)"
    by (simp_all add: duplicated_model_def)
  have loop: "observability_loop 2 [[1/2, 0, 0], [0, 1/2, 0], [1/2, 1/2, 1/2]] [[[1, 1, 1]]]
                = Inr [[[1, 1, 1]], [[1, 1, 1/2]], [[3/4, 3/4, 1/4]]]"
    by (simp add: eval_nat_numeral mat_mul_def upt_3)
  have c: "check_observability matrix_rank duplicated_model True = Inl AssertionError"
    using d
    by (simp add: check_observability_def getattr_def as_array_def duplicated_sub loop
        vstack_def duplicated_rank del: matrix_rank.simps)
  from a1 a2 r1 r2 i1 i2 c show ?thesis by simp
qed

text \<open>
  C2. For every input \<open>(nSteps, dt, EI, IR, C)\<close> the constructor raises an
  \<open>AttributeError\<close> and returns no model: \<open>_build\<close> reads \<open>self.nIR\<close> (and would read
  \<open>self.nEI\<close>) when the instance holds only the five attributes assigned from the
  arguments; and what follows \<open>_build\<close> in \<open>__init__\<close> begins with a call of
  \<open>check_controllability\<close>, which is no method of the class, so that on any instance
  without an attribute of that name it raises an \<open>AttributeError\<close> as well.
\<close>

theorem SEIR_init_raises_AttributeError:
  "SEIR_init rank nSteps dt EI IR C = Inl (AttributeError ''nIR'')
   \<and> SEIR_build [''nSteps'' \<mapsto> nSteps, ''dt'' \<mapsto> dt, ''EI'' \<mapsto> EI, ''IR'' \<mapsto> IR, ''C'' \<mapsto> C]
       = Inl (AttributeError ''nIR'')
   \<and> getattr [''nSteps'' \<mapsto> nSteps, ''dt'' \<mapsto> dt, ''EI'' \<mapsto> EI, ''IR'' \<mapsto> IR, ''C'' \<mapsto> C] ''nEI''
       = Inl (AttributeError ''nEI'')
   \<and> ''check_controllability'' \<notin> set SEIR_methods
   \<and> SEIR_init_checks rank (self(''check_controllability'' := None))
       = Inl (AttributeError ''check_controllability'')"
  by (simp add: SEIR_init_def SEIR_build_def SEIR_init_checks_def lookup_method_def
      SEIR_methods_def getattr_def)

text \<open>
  C5 on the code: for the valid sub-transition matrices \<open>EI = IR = [[1/2]]\<close> the method
  \<open>_build\<close> raises at its first statement, before any matrix \<open>A\<close> is assembled.
\<close>

theorem build_raises_before_assembly:
  "SEIR_build [''nSteps'' \<mapsto> VInt 10, ''dt'' \<mapsto> VFloat 1, ''EI'' \<mapsto> VArr [[1/2]],
               ''IR'' \<mapsto> VArr [[1/2]], ''C'' \<mapsto> VNone]
     = Inl (AttributeError ''nIR'')"
  by (simp add: SEIR_build_def getattr_def)

section \<open>Properties of controller\_intervention.apply\<close>

subsection \<open>Runs\<close>

lemma andthen_ret [simp]: "andthen (ret a) f = f a"
  by (simp add: andthen_def ret_def)

lemma andthen_emit: "andthen (emit ev) f = (ev # fst (f ()), snd (f ()))"
  by (simp add: andthen_def emit_def)

lemma andthen_attempt_Inr [simp]: "andthen (attempt (Inr a)) f = f a"
  by (simp add: andthen_def attempt_def)

lemma andthen_attempt_Inl [simp]: "andthen (attempt (Inl e)) f = ([], Inl e)"
  by (simp add: andthen_def attempt_def)

lemma update_calls_append: "update_calls (xs @ ys) = update_calls xs @ update_calls ys"
  by (induction xs rule: update_calls.induct) simp_all

lemma get_control_calls_append:
  "get_control_calls (xs @ ys) = get_control_calls xs @ get_control_calls ys"
  by (induction xs rule: get_control_calls.induct) simp_all

lemma quiet_ret [simp]: "quiet (ret a)"
  by (simp add: quiet_def ret_def)

lemma quiet_attempt [simp]: "quiet (attempt r)"
  by (simp add: quiet_def attempt_def)

lemma quiet_Inl [simp]: "quiet ([], Inl e)"
  by (simp add: quiet_def)

lemma quiet_andthen: "quiet m \<Longrightarrow> (\<And>a. quiet (f a)) \<Longrightarrow> quiet (andthen m f)"
  by (auto simp: quiet_def andthen_def update_calls_append get_control_calls_append
      split: sum.splits)

lemma quiet_print [simp]:
  "quiet (emit (Print_day n))" "quiet (emit (Print_new_exposures x))"
  "quiet (emit Print_shrinking_beta)" "quiet (emit (Print_negative_estimate x))"
  "quiet (emit (Print_asking x))" "quiet (emit (Print_new_error a b c e f))"
  by (simp_all add: quiet_def emit_def)

lemma quiet_if: "quiet a \<Longrightarrow> quiet b \<Longrightarrow> quiet (if c then a else b)"
  by simp

lemmas quiet_intros =
  quiet_if quiet_andthen quiet_ret quiet_attempt quiet_print

lemma quiet_new_beta_of: "quiet (new_beta_of ops self xs xi N u)"
  unfolding new_beta_of_def
  by (intro quiet_intros)

lemma quiet_after_update:
  "quiet (andthen (new_beta_of ops self xs xi N u) (\<lambda>new_beta.
      andthen (attempt (set_beta_layer ops layer_keys (beta_layer0 self) new_beta (beta0 self) bl0)) (\<lambda>bl.
      andthen (attempt (array_set (u_k self) i (scalar_value new_beta))) (\<lambda>uk.
      andthen (if verbose self then
                 andthen (emit (Print_asking u)) (\<lambda>_.
                 andthen (attempt (array_get ne j)) (\<lambda>n_exp.
                 andthen (attempt (dict_get (targets self) ''infected'')) (\<lambda>tgt.
                 emit (Print_new_error y n_exp tgt (fsub ops y tgt) (integrated_err self)))))
               else ret ()) (\<lambda>_.
      andthen (attempt (dict_get (targets self) ''infected'')) (\<lambda>tgt.
      ret (g K uk tgt bl)))))))"
  by (intro quiet_intros quiet_new_beta_of)

lemma calls_closed_loop:
  "update_calls (fst (closed_loop ops d self sim y N S E I))
     = [(E, I, fmax ops (get_control d (kalman_EIhat d (Kalman self) @ [integrated_err self]))
                 (fint ops 0))]
   \<and> get_control_calls (fst (closed_loop ops d self sim y N S E I))
     = [kalman_EIhat d (Kalman self) @ [integrated_err self]]"
  using quiet_after_update [of ops self S
      "upweighted ops (kalman_Ihat d (kalman_update d (Kalman self) E I
         (fmax ops (get_control d (kalman_EIhat d (Kalman self) @ [integrated_err self]))
            (fint ops 0))))"
      N "fmax ops (get_control d (kalman_EIhat d (Kalman self) @ [integrated_err self])) (fint ops 0)"
      "pars_beta_layer sim" "int (sim_t sim)" "results_n_exposed sim" "int (sim_t sim) - 1" y
      "\<lambda>K uk tgt bl. (self\<lparr>Kalman := K, u_k := uk,
                 integrated_err := fsub ops (fadd ops (integrated_err self) y) tgt\<rparr>,
           sim\<lparr>pars_beta_layer := bl\<rparr>)"
      "kalman_update d (Kalman self) E I
         (fmax ops (get_control d (kalman_EIhat d (Kalman self) @ [integrated_err self]))
            (fint ops 0))"]
  unfolding closed_loop_def Let_def quiet_def
  by (simp add: andthen_emit)

subsection \<open>The loop over the layers, and what a returning day did\<close>

lemma array_get_at:
  "array_get xs (int n - 1) = Inr x \<Longrightarrow>
     x = xs ! (if n = 0 then length xs - 1 else n - 1)"
  by (auto simp: array_get_def array_index_def Let_def nat_diff_distrib split: if_splits)

lemma array_set_nat:
  "array_set xs (int n) v = (if n < length xs then Inr (xs[n := v]) else Inl IndexError)"
  by (simp add: array_set_def array_index_def)

lemma scaled_layer_Inr:
  "scaled_layer ops l0 nb b0 = Inr v \<Longrightarrow> v = fdiv ops (fmul ops l0 (scalar_value nb)) b0"
  by (cases nb) (simp_all add: scaled_layer_def py_div_def split: if_splits)

lemma set_beta_layer_Inr:
  "set_beta_layer ops ks bl0 nb b0 bl = Inr bl' \<Longrightarrow>
     (\<forall>l\<in>set ks. \<exists>l0. bl0 l = Some l0
          \<and> bl' l = Some (fdiv ops (fmul ops l0 (scalar_value nb)) b0))
     \<and> (\<forall>l. l \<notin> set ks \<longrightarrow> bl' l = bl l)"
proof (induction ks arbitrary: bl)
  case Nil
  then show ?case by simp
next
  case (Cons k ks)
  from Cons.prems obtain l0 v where l0: "bl0 k = Some l0"
    and v: "scaled_layer ops l0 nb b0 = Inr v"
    and rest: "set_beta_layer ops ks bl0 nb b0 (bl(k \<mapsto> v)) = Inr bl'"
    by (auto simp: dict_get_def split: option.splits sum.splits)
  note v_eq = scaled_layer_Inr [OF v]
  note IH = Cons.IH [OF rest]
  show ?case
  proof (intro conjI ballI allI impI)
    fix l assume "l \<in> set (k # ks)"
    show "\<exists>l0. bl0 l = Some l0 \<and> bl' l = Some (fdiv ops (fmul ops l0 (scalar_value nb)) b0)"
    proof (cases "l \<in> set ks")
      case True
      then show ?thesis using IH by blast
    next
      case False
      with \<open>l \<in> set (k # ks)\<close> have "l = k" by simp
      moreover from False IH have "bl' l = (bl(k \<mapsto> v)) l" by blast
      ultimately show ?thesis using l0 v_eq by simp
    qed
  next
    fix l assume "l \<notin> set (k # ks)"
    then have "l \<notin> set ks" and "l \<noteq> k" by auto
    with IH show "bl' l = bl l" by auto
  qed
qed

lemma set_beta_layer_PyFloat_Inr:
  "set_beta_layer ops (k # ks) bl0 (PyFloat b) b0 bl = Inr bl' \<Longrightarrow> \<not> fzero ops b0"
  by (auto simp: dict_get_def scaled_layer_def py_div_def split: option.splits sum.splits if_splits)

lemma set_beta_layer_total:
  assumes "set ks \<subseteq> dom bl0"
    and "(case nb of PyFloat b \<Rightarrow> \<not> fzero ops b0 | NpFloat b \<Rightarrow> True)"
  shows "\<exists>bl'. set_beta_layer ops ks bl0 nb b0 bl = Inr bl'"
  using assms(1)
proof (induction ks arbitrary: bl)
  case Nil
  show ?case by simp
next
  case (Cons k ks)
  from Cons.prems obtain l0 where "bl0 k = Some l0" by auto
  moreover from assms(2) obtain v where "scaled_layer ops l0 nb b0 = Inr v"
    by (cases nb) (simp_all add: scaled_layer_def py_div_def)
  moreover from Cons have "\<exists>bl'. set_beta_layer ops ks bl0 nb b0 (bl(k \<mapsto> v)) = Inr bl'"
    by simp
  ultimately show ?case by (simp add: dict_get_def)
qed

lemma set_beta_layer_value:
  assumes "set ks \<subseteq> dom bl0"
    and "(case nb of PyFloat b \<Rightarrow> \<not> fzero ops b0 | NpFloat b \<Rightarrow> True)"
  shows "set_beta_layer ops ks bl0 nb b0 bl
           = Inr (\<lambda>l. if l \<in> set ks
                      then map_option (\<lambda>l0. fdiv ops (fmul ops l0 (scalar_value nb)) b0) (bl0 l)
                      else bl l)"
proof -
  from set_beta_layer_total [OF assms, of bl]
  obtain bl' where r: "set_beta_layer ops ks bl0 nb b0 bl = Inr bl'" by blast
  note inv = set_beta_layer_Inr [OF r]
  have "bl' l = (if l \<in> set ks
                 then map_option (\<lambda>l0. fdiv ops (fmul ops l0 (scalar_value nb)) b0) (bl0 l)
                 else bl l)" for l
  proof (cases "l \<in> set ks")
    case True
    with inv obtain l0 where "bl0 l = Some l0"
      "bl' l = Some (fdiv ops (fmul ops l0 (scalar_value nb)) b0)"
      by blast
    with True show ?thesis by simp
  next
    case False
    with inv show ?thesis by simp
  qed
  then have "bl' = (\<lambda>l. if l \<in> set ks
                 then map_option (\<lambda>l0. fdiv ops (fmul ops l0 (scalar_value nb)) b0) (bl0 l)
                 else bl l)" by (rule ext)
  with r show ?thesis by simp
qed

lemma snd_andthen_Inr:
  "snd (andthen m f) = Inr b \<Longrightarrow> \<exists>a. snd m = Inr a \<and> snd (f a) = Inr b"
  by (auto simp: andthen_def split: sum.splits)

lemma closed_loop_Inr:
  assumes "snd (closed_loop ops d self sim y N S E I) = Inr (self', sim')"
  defines "u \<equiv> fmax ops (get_control d (kalman_EIhat d (Kalman self) @ [integrated_err self]))
                  (fint ops 0)"
  defines "K \<equiv> kalman_update d (Kalman self) E I u"
  shows "\<exists>nb bl tgt.
           snd (new_beta_of ops self S (upweighted ops (kalman_Ihat d K)) N u) = Inr nb
         \<and> set_beta_layer ops layer_keys (beta_layer0 self) nb (beta0 self) (pars_beta_layer sim)
             = Inr bl
         \<and> sim_t sim < length (u_k self)
         \<and> targets self ''infected'' = Some tgt
         \<and> self' = self\<lparr>Kalman := K, u_k := (u_k self)[sim_t sim := scalar_value nb],
                         integrated_err := fsub ops (fadd ops (integrated_err self) y) tgt\<rparr>
         \<and> sim' = sim\<lparr>pars_beta_layer := bl\<rparr>"
proof -
  let ?tail = "\<lambda>nb. andthen (attempt (set_beta_layer ops layer_keys (beta_layer0 self) nb
                          (beta0 self) (pars_beta_layer sim))) (\<lambda>bl.
      andthen (attempt (array_set (u_k self) (int (sim_t sim)) (scalar_value nb))) (\<lambda>uk.
      andthen (if verbose self then
                 andthen (emit (Print_asking u)) (\<lambda>_.
                 andthen (attempt (array_get (results_n_exposed sim) (int (sim_t sim) - 1))) (\<lambda>n_exp.
                 andthen (attempt (dict_get (targets self) ''infected'')) (\<lambda>tgt.
                 emit (Print_new_error y n_exp tgt (fsub ops y tgt) (integrated_err self)))))
               else ret ()) (\<lambda>_.
      andthen (attempt (dict_get (targets self) ''infected'')) (\<lambda>tgt.
      ret (self\<lparr>Kalman := K, u_k := uk,
                 integrated_err := fsub ops (fadd ops (integrated_err self) y) tgt\<rparr>,
           sim\<lparr>pars_beta_layer := bl\<rparr>)))))"
  have "snd (andthen (new_beta_of ops self S (upweighted ops (kalman_Ihat d K)) N u) ?tail)
          = Inr (self', sim')"
    using assms(1) unfolding closed_loop_def Let_def u_def K_def
    by (simp add: andthen_emit)
  then obtain nb where
    nb: "snd (new_beta_of ops self S (upweighted ops (kalman_Ihat d K)) N u) = Inr nb"
    and t1: "snd (?tail nb) = Inr (self', sim')"
    by (blast dest: snd_andthen_Inr)
  from t1 obtain bl where
    bl: "set_beta_layer ops layer_keys (beta_layer0 self) nb (beta0 self) (pars_beta_layer sim)
           = Inr bl"
    by (auto dest!: snd_andthen_Inr simp: attempt_def)
  from t1 bl obtain uk where
    uk: "array_set (u_k self) (int (sim_t sim)) (scalar_value nb) = Inr uk"
    by (auto dest!: snd_andthen_Inr simp: attempt_def)
  from uk have lt: "sim_t sim < length (u_k self)"
    and uk_eq: "uk = (u_k self)[sim_t sim := scalar_value nb]"
    by (auto simp: array_set_nat split: if_splits)
  from t1 obtain tgt where tgt: "targets self ''infected'' = Some tgt"
    and res: "(self', sim') = (self\<lparr>Kalman := K, u_k := uk,
                 integrated_err := fsub ops (fadd ops (integrated_err self) y) tgt\<rparr>,
           sim\<lparr>pars_beta_layer := bl\<rparr>)"
    using bl uk
    by (auto dest!: snd_andthen_Inr simp: attempt_def ret_def dict_get_def split: option.splits)
  show ?thesis
    using nb bl lt tgt res uk_eq by auto
qed

subsection \<open>The two regimes\<close>

lemma snd_andthen:
  "snd (andthen m f) = (case snd m of Inl e \<Rightarrow> Inl e | Inr a \<Rightarrow> snd (f a))"
  by (simp add: andthen_def split: sum.splits)

lemma fst_andthen:
  "fst (andthen m f) = fst m @ (case snd m of Inl e \<Rightarrow> [] | Inr a \<Rightarrow> fst (f a))"
  by (simp add: andthen_def split: sum.splits)

lemma run_simps [simp]:
  "fst (ret a) = []" "snd (ret a) = Inr a"
  "fst (emit ev) = [ev]" "snd (emit ev) = Inr ()"
  "fst (attempt r) = []" "snd (attempt r) = r"
  by (simp_all add: ret_def emit_def attempt_def)

lemma new_beta_of_fallback:
  "\<not> fpos ops xi \<Longrightarrow>
     new_beta_of ops self xs xi N u
       = ([Print_negative_estimate xi], Inr (PyFloat (beta0 self)))"
  by (simp add: new_beta_of_def andthen_emit)

lemma new_beta_of_rate:
  assumes "fpos ops xi" and "SEIR_Ipow self = Some p"
  shows "snd (new_beta_of ops self xs xi N u) = Inr (NpFloat (rate_formula ops u xs xi p N))"
  using assms by (simp add: new_beta_of_def snd_andthen)

lemma new_beta_of_Inr:
  assumes "snd (new_beta_of ops self xs xi N u) = Inr nb"
  shows "nb = (if fpos ops xi
               then NpFloat (rate_formula ops u xs xi (the (SEIR_Ipow self)) N)
               else PyFloat (beta0 self))"
  using assms
  by (auto simp: new_beta_of_def snd_andthen andthen_emit split: if_splits option.splits)

lemma closed_loop_result:
  assumes "snd (new_beta_of ops self S
                  (upweighted ops (kalman_Ihat d (kalman_update d (Kalman self) E I
                     (fmax ops (get_control d (kalman_EIhat d (Kalman self) @ [integrated_err self]))
                        (fint ops 0)))))
                  N (fmax ops (get_control d (kalman_EIhat d (Kalman self) @ [integrated_err self]))
                        (fint ops 0)))
             = Inr nb"
    and "set_beta_layer ops layer_keys (beta_layer0 self) nb (beta0 self) (pars_beta_layer sim)
           = Inr bl"
    and "sim_t sim < length (u_k self)"
    and "targets self ''infected'' = Some tgt"
    and "array_get (results_n_exposed sim) (int (sim_t sim) - 1) = Inr y'"
  shows "snd (closed_loop ops d self sim y N S E I)
           = Inr (self\<lparr>Kalman := kalman_update d (Kalman self) E I
                     (fmax ops (get_control d (kalman_EIhat d (Kalman self) @ [integrated_err self]))
                        (fint ops 0)),
                       u_k := (u_k self)[sim_t sim := scalar_value nb],
                       integrated_err := fsub ops (fadd ops (integrated_err self) y) tgt\<rparr>,
                  sim\<lparr>pars_beta_layer := bl\<rparr>)"
  using assms
  by (simp add: closed_loop_def Let_def snd_andthen array_set_nat dict_get_def)

lemma apply_day_closed:
  assumes "closed_loop_day ops self sim"
    and "array_get (results_n_exposed sim) (int (sim_t sim) - 1) = Inr y"
    and "array_get (results_new_infections sim) (int (sim_t sim) - 1) = Inr x"
  shows "snd (apply_day ops d self sim)
           = snd (closed_loop ops d self sim y (scaled_pop_size sim) (susceptible ops sim)
                    (fsub ops y (infectious ops sim)) (infectious ops sim))"
    and "set (fst (closed_loop ops d self sim y (scaled_pop_size sim) (susceptible ops sim)
                    (fsub ops y (infectious ops sim)) (infectious ops sim)))
           \<subseteq> set (fst (apply_day ops d self sim))"
  using assms
  by (auto simp: apply_day_def Let_def snd_andthen fst_andthen)

lemma apply_day_Inr:
  assumes "snd (apply_day ops d self sim) = Inr r"
  shows "\<exists>y. array_get (results_n_exposed sim) (int (sim_t sim) - 1) = Inr y
           \<and> snd (if closed_loop_day ops self sim
                  then closed_loop ops d self sim y (scaled_pop_size sim) (susceptible ops sim)
                         (fsub ops y (infectious ops sim)) (infectious ops sim)
                  else open_loop d self sim (fsub ops y (infectious ops sim)) (infectious ops sim))
               = Inr r"
  using assms
  by (auto simp: apply_day_def Let_def snd_andthen split: sum.splits if_splits)

lemma closed_loop_Inr_conditions:
  assumes "snd (closed_loop ops d self sim y N S E I) = Inr r"
  defines "u \<equiv> fmax ops (get_control d (kalman_EIhat d (Kalman self) @ [integrated_err self]))
                  (fint ops 0)"
  defines "xi \<equiv> upweighted ops (kalman_Ihat d (kalman_update d (Kalman self) E I u))"
  shows "set layer_keys \<subseteq> dom (beta_layer0 self)"
    and "sim_t sim < length (u_k self)"
    and "''infected'' \<in> dom (targets self)"
    and "\<not> fpos ops xi \<Longrightarrow> \<not> fzero ops (beta0 self)"
proof -
  obtain self' sim' where r: "r = (self', sim')" by (cases r)
  from closed_loop_Inr [OF assms(1) [unfolded r]] obtain nb bl tgt where
    nb: "snd (new_beta_of ops self S xi N u) = Inr nb"
    and bl: "set_beta_layer ops layer_keys (beta_layer0 self) nb (beta0 self) (pars_beta_layer sim)
               = Inr bl"
    and day: "sim_t sim < length (u_k self)"
    and tgt: "targets self ''infected'' = Some tgt"
    unfolding xi_def u_def by blast
  from set_beta_layer_Inr [OF bl] show "set layer_keys \<subseteq> dom (beta_layer0 self)" by auto
  from day show "sim_t sim < length (u_k self)" .
  from tgt show "''infected'' \<in> dom (targets self)" by auto
  show "\<not> fzero ops (beta0 self)" if "\<not> fpos ops xi"
  proof -
    from new_beta_of_Inr [OF nb] that have "nb = PyFloat (beta0 self)" by simp
    with bl show ?thesis
      using set_beta_layer_PyFloat_Inr [of ops "''h''" "[''s'', ''w'', ''c'', ''l'']"]
      by (simp add: layer_keys_def)
  qed
qed

lemma fallback_event:
  "\<not> fpos ops (upweighted ops (kalman_Ihat d (kalman_update d (Kalman self) E I
         (fmax ops (get_control d (kalman_EIhat d (Kalman self) @ [integrated_err self]))
            (fint ops 0))))) \<Longrightarrow>
   Print_negative_estimate (upweighted ops (kalman_Ihat d (kalman_update d (Kalman self) E I
         (fmax ops (get_control d (kalman_EIhat d (Kalman self) @ [integrated_err self]))
            (fint ops 0)))))
     \<in> set (fst (closed_loop ops d self sim y N S E I))"
  by (simp add: closed_loop_def Let_def fst_andthen new_beta_of_fallback)

lemma fallback_zero_beta:
  assumes "\<not> fpos ops (upweighted ops (kalman_Ihat d (kalman_update d (Kalman self) E I
         (fmax ops (get_control d (kalman_EIhat d (Kalman self) @ [integrated_err self]))
            (fint ops 0)))))"
    and "fzero ops (beta0 self)" and "''h'' \<in> dom (beta_layer0 self)"
  shows "snd (closed_loop ops d self sim y N S E I) = Inl ZeroDivisionError"
  using assms
  by (auto simp: closed_loop_def Let_def snd_andthen new_beta_of_fallback layer_keys_def
      dict_get_def scaled_layer_def py_div_def)

lemma not_Inr_Inl: "(\<And>r. x \<noteq> Inr r) \<Longrightarrow> \<exists>e. x = Inl e"
  by (cases x) auto

subsection \<open>Rounding\<close>

lemma rne_of_int [simp]: "rne (of_int m) = m"
  by (simp add: rne_def)

lemma floor_log2_eq:
  assumes "2 powr of_int e \<le> x" and "x < 2 powr (of_int e + 1)"
  shows "\<lfloor>log 2 x\<rfloor> = e"
proof -
  have pos: "0 < x" using assms(1) powr_gt_zero [of 2 "of_int e"] by linarith
  have "of_int e \<le> log 2 x" using assms(1) pos by (simp add: le_log_iff)
  moreover have "log 2 x < of_int e + 1" using assms(2) pos by (simp add: log_less_iff)
  ultimately show ?thesis by (simp add: floor_eq_iff)
qed

lemma rnd_at:
  assumes "2 powr of_int e \<le> \<bar>x\<bar>" and "\<bar>x\<bar> < 2 powr (of_int e + 1)" and "- 1022 \<le> e"
  shows "rnd x = of_int (rne (x * 2 powr (52 - of_int e))) * 2 powr (of_int e - 52)"
proof -
  have "0 < \<bar>x\<bar>" using assms(1) powr_gt_zero [of 2 "of_int e"] by linarith
  then have "x \<noteq> 0" by simp
  moreover have "\<lfloor>log 2 \<bar>x\<bar>\<rfloor> = e" by (rule floor_log2_eq [OF assms(1,2)])
  ultimately show ?thesis using assms(3) by (simp add: rnd_def max_def)
qed

lemma rnd_int:
  assumes "\<bar>k\<bar> < 2 ^ 53"
  shows "rnd (of_int k) = of_int k"
proof (cases "k = 0")
  case True
  then show ?thesis by (simp add: rnd_def)
next
  case False
  define e where "e = \<lfloor>log 2 \<bar>of_int k :: real\<bar>\<rfloor>"
  have k1: "1 \<le> \<bar>of_int k :: real\<bar>" using False by (simp flip: of_int_abs)
  have k2: "\<bar>of_int k :: real\<bar> < 2 ^ 53"
    using assms by (metis of_int_abs of_int_less_numeral_power_cancel_iff)
  have e0: "0 \<le> e" using k1 by (simp add: e_def zero_le_log_cancel_iff)
  have "log 2 \<bar>of_int k :: real\<bar> < 53"
    using k1 k2 by (simp add: log_less_iff powr_realpow)
  then have e52: "e \<le> 52" by (simp add: e_def floor_le_iff)
  define n where "n = nat (52 - e)"
  have up: "(2::real) powr (52 - of_int e) = 2 ^ n"
    using e52 by (simp add: n_def powr_realpow [symmetric])
  have down: "(2::real) powr (of_int e - 52) = 1 / 2 ^ n"
  proof -
    have "(2::real) powr (of_int e - 52) = 2 powr (- (52 - of_int e))" by simp
    also have "\<dots> = 1 / 2 powr (52 - of_int e)" by (simp only: powr_minus_divide)
    finally show ?thesis by (simp only: up)
  qed
  have "of_int k * (2::real) ^ n = of_int (k * 2 ^ n)" by simp
  then have "rne (of_int k * (2::real) ^ n) = k * 2 ^ n" by (simp only: rne_of_int)
  then have "of_int (rne (of_int k * 2 powr (52 - of_int e))) * 2 powr (of_int e - 52)
               = (of_int k :: real)"
    by (simp add: up down)
  moreover have "max e (- 1022) = e" using e0 by simp
  ultimately show ?thesis
    using False by (simp add: rnd_def e_def [symmetric])
qed

lemma max_double_ge: "2 ^ 53 \<le> max_double"
proof -
  have "(1::real) \<le> 2 ^ 971" by simp
  have "(2::real) ^ 53 \<le> (2 ^ 53 - 1) * 2" by simp
  also have "\<dots> \<le> (2 ^ 53 - 1) * 2 ^ 971"
    by (rule mult_left_mono) (simp_all add: self_le_power)
  finally show ?thesis by (simp add: max_double_def)
qed

lemma fin_int:
  assumes "\<bar>k\<bar> < 2 ^ 53"
  shows "fin (of_int k) = Finite (of_int k)"
proof -
  have "\<bar>of_int k :: real\<bar> < 2 ^ 53"
    using assms by (metis of_int_abs of_int_less_numeral_power_cancel_iff)
  with max_double_ge have "\<bar>of_int k :: real\<bar> < max_double" by linarith
  then show ?thesis by (simp add: fin_def rnd_int [OF assms] Let_def abs_less_iff)
qed

lemma fin_numeral [simp]:
  "(numeral w :: int) < 2 ^ 53 \<Longrightarrow> fin (numeral w) = Finite (numeral w)"
  "(numeral w :: int) < 2 ^ 53 \<Longrightarrow> fin (- numeral w) = Finite (- numeral w)"
  "fin 0 = Finite 0" "fin 1 = Finite 1" "fin (- 1) = Finite (- 1)"
  using fin_int [of "numeral w"] fin_int [of "- numeral w"] fin_int [of 0] fin_int [of 1]
    fin_int [of "- 1"]
  by simp_all

lemma fin_at:
  assumes "2 powr of_int e \<le> \<bar>x\<bar>" and "\<bar>x\<bar> < 2 powr (of_int e + 1)" and "- 1022 \<le> e"
    and "e \<le> 1022"
    and "of_int (rne (x * 2 powr (52 - of_int e))) * 2 powr (of_int e - 52) = r"
    and "\<bar>r\<bar> \<le> 2 ^ 53"
  shows "fin x = Finite r"
proof -
  have "rnd x = r" using rnd_at [OF assms(1,2,3)] assms(5) by simp
  moreover have "\<bar>r\<bar> \<le> max_double" using assms(6) max_double_ge by linarith
  ultimately show ?thesis by (simp add: fin_def Let_def abs_le_iff not_less)
qed

lemma three_tenths: "dmul (Finite 3) (Finite tenth) = Finite (1351079888211149 / 4503599627370496)"
proof -
  have "fin (3 * tenth) = Finite (1351079888211149 / 4503599627370496)"
    by (rule fin_at [where e = "- 2"]) (simp_all add: tenth_def rne_def powr_minus_divide)
  then show ?thesis by simp
qed

lemma three_tenths_by_tenth:
  "ddiv (Finite (1351079888211149 / 4503599627370496)) (Finite tenth)
     = Finite (6755399441055745 / 2251799813685248)"
proof -
  have "fin (1351079888211149 / 4503599627370496 / tenth) = Finite (6755399441055745 / 2251799813685248)"
    by (rule fin_at [where e = 1]) (simp_all add: tenth_def rne_def powr_minus_divide)
  then show ?thesis by (simp add: tenth_def)
qed

lemma tenth_by_tenth: "ddiv (dmul (Finite 1) (Finite tenth)) (Finite tenth) = Finite 1"
proof -
  have "fin tenth = Finite tenth"
    by (rule fin_at [where e = "- 4"]) (simp_all add: tenth_def rne_def powr_minus_divide)
  then show ?thesis by (simp add: tenth_def)
qed

lemma rne_zero: "rne r = 0 \<Longrightarrow> \<bar>r\<bar> \<le> 1 / 2"
  unfolding rne_def Let_def
  by (auto split: if_splits) linarith+

lemma rnd_nonzero:
  assumes "2 powr (- 1022) \<le> \<bar>x\<bar>"
  shows "rnd x \<noteq> 0"
proof -
  have pos: "0 < \<bar>x\<bar>" using assms powr_gt_zero [of 2 "- 1022"] by linarith
  then have x0: "x \<noteq> 0" by simp
  define e where "e = \<lfloor>log 2 \<bar>x\<bar>\<rfloor>"
  have "- 1022 \<le> log 2 \<bar>x\<bar>" using assms pos by (simp add: le_log_iff)
  then have e1: "- 1022 \<le> e" by (simp add: e_def le_floor_iff)
  have "of_int e \<le> log 2 \<bar>x\<bar>" by (simp add: e_def)
  then have le: "2 powr of_int e \<le> \<bar>x\<bar>" using pos by (simp add: le_log_iff)
  have "2 powr of_int e * 2 powr (52 - of_int e) \<le> \<bar>x\<bar> * 2 powr (52 - of_int e)"
    by (rule mult_right_mono [OF le]) simp
  moreover have "(2::real) powr of_int e * 2 powr (52 - of_int e) = 2 powr 52"
    by (simp flip: powr_add)
  moreover have "(1::real) \<le> 2 powr 52" by simp
  ultimately have "1 \<le> \<bar>x * 2 powr (52 - of_int e)\<bar>" by (simp add: abs_mult)
  then have "rne (x * 2 powr (52 - of_int e)) \<noteq> 0"
    using rne_zero [of "x * 2 powr (52 - of_int e)"] by auto
  then show ?thesis
    using x0 e1 by (simp add: rnd_def e_def [symmetric] max_def)
qed

text \<open>
  For counts the test \<open>S*I == 0\<close> of line 66 is the test that one of them is zero: the
  product of two doubles does not round to zero unless it underflows, and the product of
  two doubles of magnitude at least 1 does not.
\<close>

lemma product_zero:
  assumes "a \<noteq> 0 \<Longrightarrow> b \<noteq> 0 \<Longrightarrow> 2 powr (- 1022) \<le> \<bar>a * b\<bar>"
  shows "fzero double_ops (fmul double_ops (Finite a) (Finite b)) = (a = 0 \<or> b = 0)"
proof (cases "a = 0 \<or> b = 0")
  case True
  then have "a * b = 0" by auto
  then have "fin (a * b) = Finite 0" by (simp only: fin_numeral)
  then show ?thesis using True by (simp add: double_ops_def)
next
  case False
  with assms have "2 powr (- 1022) \<le> \<bar>a * b\<bar>" by simp
  then have "rnd (a * b) \<noteq> 0" by (rule rnd_nonzero)
  then have "\<not> dzero (fin (a * b))" by (simp add: fin_def Let_def)
  then show ?thesis using False by (simp add: double_ops_def)
qed

lemma product_of_counts_zero:
  assumes "a = 0 \<or> 1 \<le> \<bar>a\<bar>" and "b = 0 \<or> 1 \<le> \<bar>b\<bar>"
  shows "fzero double_ops (fmul double_ops (Finite a) (Finite b)) = (a = 0 \<or> b = 0)"
proof (rule product_zero)
  assume "a \<noteq> 0" and "b \<noteq> 0"
  with assms have a: "1 \<le> \<bar>a\<bar>" and b: "1 \<le> \<bar>b\<bar>" by auto
  have "1 * 1 \<le> \<bar>a\<bar> * \<bar>b\<bar>" by (rule mult_mono [OF a b]) simp_all
  then have "1 \<le> \<bar>a * b\<bar>" by (simp add: abs_mult)
  moreover have "(2::real) powr (- 1022) \<le> 1" by (simp add: powr_minus_divide)
  ultimately show "2 powr (- 1022) \<le> \<bar>a * b\<bar>" by linarith
qed

lemma closed_loop_day_counts:
  assumes "susceptible double_ops sim = Finite a" and "infectious double_ops sim = Finite b"
    and "a = 0 \<or> 1 \<le> \<bar>a\<bar>" and "b = 0 \<or> 1 \<le> \<bar>b\<bar>"
  shows "closed_loop_day double_ops self sim
           = (start_day self \<le> int (sim_t sim) \<and> a \<noteq> 0 \<and> b \<noteq> 0)"
  using product_of_counts_zero [OF assms(3,4)]
  by (auto simp: closed_loop_day_def assms(1,2))

subsection \<open>The concrete day, run\<close>

lemma example_reads:
  "array_get (results_n_exposed example_sim) (int (sim_t example_sim) - 1) = Inr (Finite 7)"
  "array_get (results_new_infections example_sim) (int (sim_t example_sim) - 1) = Inr (Finite 4)"
  by (simp_all add: example_sim_def array_get_def array_index_def)

lemma example_fields:
  "sim_t example_sim = 1" "scaled_pop_size example_sim = Finite 4"
  "pars_beta_layer example_sim = yesterday_layers"
  "start_day example_self = 0" "Kalman example_self = [Finite 1]"
  "integrated_err example_self = Finite 0" "beta0 example_self = Finite 2"
  "beta_layer0 example_self = example_layers" "u_k example_self = [Finite 2, Finite 2, Finite 2]"
  "targets example_self ''infected'' = Some (Finite 5)"
  "SEIR_Ipow example_self = Some (Finite 1)"
  by (simp_all add: example_sim_def example_self_def)

lemma example_counts:
  "susceptible double_ops example_sim = Finite 2" "infectious double_ops example_sim = Finite 1"
  by (simp_all add: example_sim_def susceptible_def infectious_def double_ops_def dsub_def)

lemma example_closed: "closed_loop_day double_ops example_self example_sim"
  by (simp add: closed_loop_day_def example_counts)
    (simp add: example_self_def example_sim_def double_ops_def)

lemma negative_closed: "closed_loop_day double_ops example_negative example_sim"
  using example_closed by (simp add: closed_loop_day_def example_negative_def)

lemma tenth_closed: "closed_loop_day double_ops example_tenth example_sim"
  using negative_closed by (simp add: closed_loop_day_def example_tenth_def)

lemma example_keys:
  "set layer_keys \<subseteq> dom example_layers" "set layer_keys \<subseteq> dom yesterday_layers"
  by (simp_all add: layer_keys_def example_layers_def yesterday_layers_def)

lemma example_control:
  "fmax double_ops (get_control (example_deps (Finite 180)) Xu) (fint double_ops 0) = Finite 180"
  "fmax double_ops (get_control (example_deps (Finite 0)) Xu) (fint double_ops 0) = Finite 0"
  by (simp_all add: example_deps_def double_ops_def)

lemma example_estimate:
  "upweighted double_ops (kalman_Ihat (example_deps c)
      (kalman_update (example_deps c) [Finite 1] E (Finite 1) u)) = Finite 4"
  "upweighted double_ops (kalman_Ihat (example_deps c)
      (kalman_update (example_deps c) [Finite (- 3)] E (Finite 1) u)) = Finite (- 4)"
  by (simp_all add: example_deps_def upweighted_def double_ops_def dsum_def)

lemma example_rate:
  "rate_formula double_ops (Finite 180) (Finite 2) (Finite 4) (Finite 1) (Finite 4) = Finite 5"
  "rate_formula double_ops (Finite 0) (Finite 2) (Finite 4) (Finite 1) (Finite 4) = Finite 0"
  by (simp_all add: rate_formula_def double_ops_def dpow_def)

subsection \<open>The calls of a day, and the open loop\<close>

text \<open>
  C6, as the code has it. On every invocation of \<open>apply\<close> whose two reads of the result
  arrays at index \<open>t - 1\<close> succeed, \<open>Kalman.update\<close> is called exactly once, in both
  regimes, with the arguments \<open>(E, I, u)\<close>, and when the day returns the estimator's state
  is the result of that one update of the state it had. \<open>Controller.get_control\<close> is
  called (once) if and only if \<open>t\<close> is at least \<open>start_day\<close> and the product \<open>S*I\<close> of
  the observed susceptible and infectious counts is not zero, which is the test the code
  makes. In the open-loop regime the day returns, and the control input \<open>u\<close> fed to the
  estimator is the entry of \<open>results['new_infections']\<close> at index \<open>t - 1\<close>: the count of
  the previous day when \<open>t\<close> is at least 1, and the last entry of the array when \<open>t = 0\<close>.
\<close>

theorem estimator_updated_once:
  fixes ops :: "'f float_ops" and d :: "('k, 'f) deps"
    and self :: "('k, 'f) controller_intervention" and sim :: "'f sim"
  assumes "array_get (results_n_exposed sim) (int (sim_t sim) - 1) = Inr y"
    and "array_get (results_new_infections sim) (int (sim_t sim) - 1) = Inr x"
  defines "I \<equiv> infectious ops sim"
  defines "E \<equiv> fsub ops y I"
  defines "Xu \<equiv> kalman_EIhat d (Kalman self) @ [integrated_err self]"
  defines "u \<equiv> if closed_loop_day ops self sim
                 then fmax ops (get_control d Xu) (fint ops 0) else x"
  shows "update_calls (fst (apply_day ops d self sim)) = [(E, I, u)]
       \<and> get_control_calls (fst (apply_day ops d self sim))
           = (if start_day self \<le> int (sim_t sim)
                 \<and> \<not> fzero ops (fmul ops (susceptible ops sim) I)
              then [Xu] else [])
       \<and> (\<forall>self' sim'. snd (apply_day ops d self sim) = Inr (self', sim')
             \<longrightarrow> Kalman self' = kalman_update d (Kalman self) E I u)
       \<and> (\<not> closed_loop_day ops self sim
             \<longrightarrow> snd (apply_day ops d self sim)
                   = Inr (self\<lparr>Kalman := kalman_update d (Kalman self) E I x\<rparr>, sim))
       \<and> x = results_new_infections sim
               ! (if sim_t sim = 0 then length (results_new_infections sim) - 1
                  else sim_t sim - 1)"
proof (cases "closed_loop_day ops self sim")
  case True
  then have c: "start_day self \<le> int (sim_t sim)
      \<and> \<not> fzero ops (fmul ops (susceptible ops sim) (infectious ops sim))"
    by (auto simp: closed_loop_day_def)
  have calls: "update_calls (fst (apply_day ops d self sim)) = [(E, I, u)]
       \<and> get_control_calls (fst (apply_day ops d self sim)) = [Xu]"
    using True assms(1,2) calls_closed_loop [of ops d self sim y "scaled_pop_size sim"
        "susceptible ops sim" "fsub ops y (infectious ops sim)" "infectious ops sim"]
    by (simp add: apply_day_def Let_def fst_andthen update_calls_append
        get_control_calls_append I_def E_def Xu_def u_def)
  have state: "Kalman self' = kalman_update d (Kalman self) E I u"
    if "snd (apply_day ops d self sim) = Inr (self', sim')" for self' sim'
  proof -
    from that apply_day_closed(1) [OF True assms(1,2), of d]
    have "snd (closed_loop ops d self sim y (scaled_pop_size sim) (susceptible ops sim)
                 (fsub ops y (infectious ops sim)) (infectious ops sim)) = Inr (self', sim')"
      by simp
    from closed_loop_Inr [OF this] show ?thesis
      using True by (auto simp: I_def E_def Xu_def u_def)
  qed
  show ?thesis
    using calls state c True array_get_at [OF assms(2)] by (simp add: I_def)
next
  case False
  then have c: "\<not> (start_day self \<le> int (sim_t sim)
      \<and> \<not> fzero ops (fmul ops (susceptible ops sim) (infectious ops sim)))"
    by (auto simp: closed_loop_day_def)
  have run: "apply_day ops d self sim
      = ((if verbose self then [Print_day (sim_t sim), Print_new_exposures x] else [])
           @ [Call_Kalman_update E I x],
         Inr (self\<lparr>Kalman := kalman_update d (Kalman self) E I x\<rparr>, sim))"
    using False assms(1,2)
    by (simp add: apply_day_def open_loop_def Let_def andthen_emit I_def E_def)
  show ?thesis
    using False c array_get_at [OF assms(2)]
    by (simp add: run update_calls_append get_control_calls_append u_def I_def)
qed

theorem estimator_updated_once_witness:
  "array_get (results_n_exposed example_sim) (int (sim_t example_sim) - 1) = Inr (Finite 7)
   \<and> array_get (results_new_infections example_sim) (int (sim_t example_sim) - 1)
       = Inr (Finite 4)
   \<and> closed_loop_day double_ops example_self example_sim
   \<and> update_calls (fst (apply_day double_ops (example_deps (Finite 180)) example_self example_sim))
       = [(Finite 6, Finite 1, Finite 180)]
   \<and> get_control_calls
         (fst (apply_day double_ops (example_deps (Finite 180)) example_self example_sim))
       = [[Finite 1, Finite 0]]
   \<and> Finite 4 = results_new_infections example_sim ! 0"
proof -
  have z: "\<not> fzero double_ops (fmul double_ops (Finite 2) (Finite 1))"
    by (simp add: double_ops_def)
  have E: "fsub double_ops (Finite 7) (Finite 1) = Finite 6"
    by (simp add: double_ops_def dsub_def)
  have Xu: "kalman_EIhat (example_deps (Finite 180)) [Finite 1] = [Finite 1]"
    by (simp add: example_deps_def)
  have "update_calls
          (fst (apply_day double_ops (example_deps (Finite 180)) example_self example_sim))
        = [(Finite 6, Finite 1, Finite 180)]
      \<and> get_control_calls
          (fst (apply_day double_ops (example_deps (Finite 180)) example_self example_sim))
        = [[Finite 1, Finite 0]]
      \<and> Finite 4 = results_new_infections example_sim ! 0"
    using estimator_updated_once [OF example_reads, of double_ops "example_deps (Finite 180)"
        example_self]
    by (simp add: example_closed example_counts example_control example_fields z E Xu)
  with example_reads example_closed show ?thesis by blast
qed

text \<open>
  C6 as stated fails on day 0 of a run that starts open-loop: the index \<open>t - 1\<close> is
  \<open>-1\<close>, and the estimator is fed the last entry of the two result arrays, 6 and 0 here,
  the entries of the last day of the run; no day precedes day 0.
\<close>

theorem first_day_counterexample:
  "sim_t (example_sim\<lparr>sim_t := 0\<rparr>) = 0
   \<and> \<not> closed_loop_day double_ops (example_self\<lparr>start_day := 1\<rparr>) (example_sim\<lparr>sim_t := 0\<rparr>)
   \<and> results_new_infections (example_sim\<lparr>sim_t := 0\<rparr>) = [Finite 4, Finite 0, Finite 6]
   \<and> update_calls (fst (apply_day double_ops (example_deps (Finite 180))
                            (example_self\<lparr>start_day := 1\<rparr>) (example_sim\<lparr>sim_t := 0\<rparr>)))
       = [(Finite (- 1), Finite 1, Finite 6)]"
  by (simp add: closed_loop_day_def apply_day_def open_loop_def Let_def andthen_emit
      array_get_def array_index_def infectious_def)
    (simp add: example_self_def example_sim_def double_ops_def dsub_def)

text \<open>
  C7. On a day of the open-loop regime (\<open>t < start_day\<close>, or \<open>S*I == 0\<close>, the code's test
  for a zero susceptible or infectious count) \<open>apply\<close> returns with the simulation
  unchanged, so \<open>beta\<close> and every entry of \<open>beta_layer\<close> are what they were, and with the
  intervention unchanged but for the estimator: the integral error and \<open>u_k\<close> are what
  they were.
\<close>

theorem open_loop_frame:
  assumes "int (sim_t sim) < start_day self
           \<or> fzero ops (fmul ops (susceptible ops sim) (infectious ops sim))"
    and "array_get (results_n_exposed sim) (int (sim_t sim) - 1) = Inr y"
    and "array_get (results_new_infections sim) (int (sim_t sim) - 1) = Inr x"
  shows "\<exists>self' sim'. snd (apply_day ops d self sim) = Inr (self', sim')
       \<and> pars_beta sim' = pars_beta sim \<and> pars_beta_layer sim' = pars_beta_layer sim
       \<and> integrated_err self' = integrated_err self \<and> u_k self' = u_k self
       \<and> sim' = sim
       \<and> self' = self\<lparr>Kalman := kalman_update d (Kalman self)
                                  (fsub ops y (infectious ops sim)) (infectious ops sim) x\<rparr>"
proof -
  have "\<not> closed_loop_day ops self sim"
    using assms(1) by (auto simp: closed_loop_day_def)
  then show ?thesis
    using assms(2,3)
    by (simp add: apply_day_def open_loop_def Let_def snd_andthen)
qed

theorem open_loop_frame_witness:
  "int (sim_t example_sim) < start_day (example_self\<lparr>start_day := 5\<rparr>)
   \<and> snd (apply_day double_ops (example_deps (Finite 180)) (example_self\<lparr>start_day := 5\<rparr>)
            example_sim)
       = Inr (example_self\<lparr>start_day := 5, Kalman := [Finite 1, Finite 1]\<rparr>, example_sim)"
proof -
  have a: "int (sim_t example_sim) < start_day (example_self\<lparr>start_day := 5\<rparr>)"
    by (simp add: example_sim_def)
  have k: "kalman_update (example_deps (Finite 180)) [Finite 1] E (Finite 1) u
             = [Finite 1, Finite 1]" for E u
    by (simp add: example_deps_def)
  show ?thesis
    using open_loop_frame [OF disjI1 [OF a] example_reads, of double_ops
        "example_deps (Finite 180)"] a
    by (auto simp: example_counts example_fields k)
qed

subsection \<open>The closed loop: fallback, rate and layers\<close>

lemma fallback_run:
  fixes ops :: "'f float_ops" and d :: "('k, 'f) deps"
    and self :: "('k, 'f) controller_intervention" and sim :: "'f sim"
  defines "I \<equiv> infectious ops sim"
  assumes closed: "closed_loop_day ops self sim"
    and y: "array_get (results_n_exposed sim) (int (sim_t sim) - 1) = Inr y"
    and x: "array_get (results_new_infections sim) (int (sim_t sim) - 1) = Inr x"
  defines "u \<equiv> fmax ops (get_control d (kalman_EIhat d (Kalman self) @ [integrated_err self]))
                  (fint ops 0)"
  defines "K \<equiv> kalman_update d (Kalman self) (fsub ops y I) I u"
  assumes xi: "\<not> fpos ops (upweighted ops (kalman_Ihat d K))"
    and b0: "\<not> fzero ops (beta0 self)"
    and keys: "set layer_keys \<subseteq> dom (beta_layer0 self)"
    and day: "sim_t sim < length (u_k self)"
    and tgt: "targets self ''infected'' = Some tgt"
  shows "snd (apply_day ops d self sim)
           = Inr (self\<lparr>Kalman := K, u_k := (u_k self)[sim_t sim := beta0 self],
                       integrated_err := fsub ops (fadd ops (integrated_err self) y) tgt\<rparr>,
                  sim\<lparr>pars_beta_layer :=
                        (\<lambda>l. if l \<in> set layer_keys
                             then map_option (\<lambda>l0. fdiv ops (fmul ops l0 (beta0 self)) (beta0 self))
                                    (beta_layer0 self l)
                             else pars_beta_layer sim l)\<rparr>)"
proof -
  have nb: "snd (new_beta_of ops self (susceptible ops sim) (upweighted ops (kalman_Ihat d K))
                   (scaled_pop_size sim) u) = Inr (PyFloat (beta0 self))"
    using xi by (simp add: new_beta_of_fallback)
  have bl: "set_beta_layer ops layer_keys (beta_layer0 self) (PyFloat (beta0 self)) (beta0 self)
              (pars_beta_layer sim)
            = Inr (\<lambda>l. if l \<in> set layer_keys
                        then map_option (\<lambda>l0. fdiv ops (fmul ops l0 (beta0 self)) (beta0 self))
                               (beta_layer0 self l)
                        else pars_beta_layer sim l)"
    using set_beta_layer_value [OF keys, where nb = "PyFloat (beta0 self)" and ops = ops
        and ?b0.0 = "beta0 self"] b0
    by (simp cong: if_cong)
  have "snd (closed_loop ops d self sim y (scaled_pop_size sim) (susceptible ops sim)
               (fsub ops y I) I)
           = Inr (self\<lparr>Kalman := K, u_k := (u_k self)[sim_t sim := beta0 self],
                       integrated_err := fsub ops (fadd ops (integrated_err self) y) tgt\<rparr>,
                  sim\<lparr>pars_beta_layer :=
                        (\<lambda>l. if l \<in> set layer_keys
                             then map_option (\<lambda>l0. fdiv ops (fmul ops l0 (beta0 self)) (beta0 self))
                                    (beta_layer0 self l)
                             else pars_beta_layer sim l)\<rparr>)"
    using closed_loop_result [OF nb [unfolded K_def u_def] bl day tgt y, of y]
    by (simp add: K_def u_def)
  then show ?thesis
    using apply_day_closed(1) [OF closed y x, of d] by (simp add: I_def)
qed

lemma rate_run:
  fixes ops :: "'f float_ops" and d :: "('k, 'f) deps"
    and self :: "('k, 'f) controller_intervention" and sim :: "'f sim"
  defines "I \<equiv> infectious ops sim" and "S \<equiv> susceptible ops sim"
    and "N \<equiv> scaled_pop_size sim"
  assumes closed: "closed_loop_day ops self sim"
    and y: "array_get (results_n_exposed sim) (int (sim_t sim) - 1) = Inr y"
    and x: "array_get (results_new_infections sim) (int (sim_t sim) - 1) = Inr x"
  defines "u \<equiv> fmax ops (get_control d (kalman_EIhat d (Kalman self) @ [integrated_err self]))
                  (fint ops 0)"
  defines "K \<equiv> kalman_update d (Kalman self) (fsub ops y I) I u"
  defines "xi \<equiv> upweighted ops (kalman_Ihat d K)"
  assumes xi: "fpos ops xi"
    and Ipow: "SEIR_Ipow self = Some Ipow"
    and keys: "set layer_keys \<subseteq> dom (beta_layer0 self)"
    and day: "sim_t sim < length (u_k self)"
    and tgt: "targets self ''infected'' = Some tgt"
  defines "new_beta \<equiv> rate_formula ops u S xi Ipow N"
  shows "snd (apply_day ops d self sim)
           = Inr (self\<lparr>Kalman := K, u_k := (u_k self)[sim_t sim := new_beta],
                       integrated_err := fsub ops (fadd ops (integrated_err self) y) tgt\<rparr>,
                  sim\<lparr>pars_beta_layer :=
                        (\<lambda>l. if l \<in> set layer_keys
                             then map_option (\<lambda>l0. fdiv ops (fmul ops l0 new_beta) (beta0 self))
                                    (beta_layer0 self l)
                             else pars_beta_layer sim l)\<rparr>)"
proof -
  have nb: "snd (new_beta_of ops self S xi N u) = Inr (NpFloat new_beta)"
    using new_beta_of_rate [OF xi Ipow, of S N u] by (simp add: new_beta_def)
  have bl: "set_beta_layer ops layer_keys (beta_layer0 self) (NpFloat new_beta) (beta0 self)
              (pars_beta_layer sim)
            = Inr (\<lambda>l. if l \<in> set layer_keys
                        then map_option (\<lambda>l0. fdiv ops (fmul ops l0 new_beta) (beta0 self))
                               (beta_layer0 self l)
                        else pars_beta_layer sim l)"
    using set_beta_layer_value [OF keys, where nb = "NpFloat new_beta" and ops = ops
        and ?b0.0 = "beta0 self"]
    by (simp cong: if_cong)
  have "snd (closed_loop ops d self sim y N S (fsub ops y I) I)
           = Inr (self\<lparr>Kalman := K, u_k := (u_k self)[sim_t sim := new_beta],
                       integrated_err := fsub ops (fadd ops (integrated_err self) y) tgt\<rparr>,
                  sim\<lparr>pars_beta_layer :=
                        (\<lambda>l. if l \<in> set layer_keys
                             then map_option (\<lambda>l0. fdiv ops (fmul ops l0 new_beta) (beta0 self))
                                    (beta_layer0 self l)
                             else pars_beta_layer sim l)\<rparr>)"
    using closed_loop_result [OF nb [unfolded xi_def K_def u_def] bl day tgt y, of y]
    by (simp add: K_def u_def)
  then show ?thesis
    using apply_day_closed(1) [OF closed y x, of d]
    by (simp add: I_def S_def N_def)
qed

lemma closed_day_raises:
  assumes closed: "closed_loop_day ops self sim"
    and y: "array_get (results_n_exposed sim) (int (sim_t sim) - 1) = Inr y"
    and x: "array_get (results_new_infections sim) (int (sim_t sim) - 1) = Inr x"
    and bad: "\<not> (set layer_keys \<subseteq> dom (beta_layer0 self) \<and> sim_t sim < length (u_k self)
                 \<and> ''infected'' \<in> dom (targets self))
              \<or> (\<not> fpos ops (upweighted ops (kalman_Ihat d (kalman_update d (Kalman self)
                      (fsub ops y (infectious ops sim)) (infectious ops sim)
                      (fmax ops (get_control d (kalman_EIhat d (Kalman self)
                                                  @ [integrated_err self])) (fint ops 0)))))
                 \<and> fzero ops (beta0 self))"
  shows "\<exists>e. snd (apply_day ops d self sim) = Inl e"
proof (rule not_Inr_Inl)
  fix r
  show "snd (apply_day ops d self sim) \<noteq> Inr r"
  proof
    assume "snd (apply_day ops d self sim) = Inr r"
    with apply_day_closed(1) [OF closed y x, of d]
    have r: "snd (closed_loop ops d self sim y (scaled_pop_size sim) (susceptible ops sim)
                    (fsub ops y (infectious ops sim)) (infectious ops sim)) = Inr r"
      by simp
    from closed_loop_Inr_conditions [OF r] bad show False by blast
  qed
qed

text \<open>
  C8, as the code has it. On a closed-loop day (whose two reads of the result arrays at
  index \<open>t - 1\<close> succeed) on which the up-weighted infectious estimate is not positive
  (zero, negative or nan), \<open>apply\<close> prints the warning and takes \<open>beta0\<close> as the rate of
  the day. It returns exactly when \<open>beta0\<close> is not zero, the saved baseline \<open>beta_layer0\<close>
  has the five layers \<open>h, s, w, c, l\<close>, the day \<open>t\<close> indexes \<open>u_k\<close> and \<open>targets\<close> has
  \<open>'infected'\<close>. Then each of the five layers is set to the double
  \<open>(beta_layer0[lkey] * beta0) / beta0\<close>, product and quotient each rounded (the original
  rate up to that rounding, not always the original rate itself), the other layers keep
  their rates, \<open>beta0\<close> is recorded in \<open>u_k[t]\<close>, the integral error advances by
  \<open>y - targets['infected']\<close> and the estimator has been updated. Otherwise \<open>apply\<close>
  raises; with \<open>beta0 == 0\<close> and a baseline that has the layer \<open>h\<close> it raises
  \<open>ZeroDivisionError\<close>.
\<close>

theorem fallback_applies_baseline:
  fixes ops :: "'f float_ops" and d :: "('k, 'f) deps"
    and self :: "('k, 'f) controller_intervention" and sim :: "'f sim"
  defines "I \<equiv> infectious ops sim"
  assumes "closed_loop_day ops self sim"
    and "array_get (results_n_exposed sim) (int (sim_t sim) - 1) = Inr y"
    and "array_get (results_new_infections sim) (int (sim_t sim) - 1) = Inr x"
  defines "u \<equiv> fmax ops (get_control d (kalman_EIhat d (Kalman self) @ [integrated_err self]))
                  (fint ops 0)"
  defines "K \<equiv> kalman_update d (Kalman self) (fsub ops y I) I u"
  assumes "\<not> fpos ops (upweighted ops (kalman_Ihat d K))"
  shows "Print_negative_estimate (upweighted ops (kalman_Ihat d K))
           \<in> set (fst (apply_day ops d self sim))
       \<and> (if \<not> fzero ops (beta0 self) \<and> set layer_keys \<subseteq> dom (beta_layer0 self)
              \<and> sim_t sim < length (u_k self) \<and> ''infected'' \<in> dom (targets self)
          then \<exists>tgt. targets self ''infected'' = Some tgt
             \<and> snd (apply_day ops d self sim)
                 = Inr (self\<lparr>Kalman := K, u_k := (u_k self)[sim_t sim := beta0 self],
                             integrated_err := fsub ops (fadd ops (integrated_err self) y) tgt\<rparr>,
                        sim\<lparr>pars_beta_layer :=
                              (\<lambda>l. if l \<in> set layer_keys
                                   then map_option
                                          (\<lambda>l0. fdiv ops (fmul ops l0 (beta0 self)) (beta0 self))
                                          (beta_layer0 self l)
                                   else pars_beta_layer sim l)\<rparr>)
          else \<exists>e. snd (apply_day ops d self sim) = Inl e)
       \<and> (fzero ops (beta0 self) \<and> ''h'' \<in> dom (beta_layer0 self)
            \<longrightarrow> snd (apply_day ops d self sim) = Inl ZeroDivisionError)"
proof (intro conjI)
  note closed = assms(2) and y = assms(3) and x = assms(4)
  have neg: "\<not> fpos ops (upweighted ops (kalman_Ihat d (kalman_update d (Kalman self)
                 (fsub ops y (infectious ops sim)) (infectious ops sim)
                 (fmax ops (get_control d (kalman_EIhat d (Kalman self) @ [integrated_err self]))
                    (fint ops 0)))))"
    using assms(7) by (simp add: K_def u_def I_def)
  show "Print_negative_estimate (upweighted ops (kalman_Ihat d K))
          \<in> set (fst (apply_day ops d self sim))"
    using fallback_event [OF neg, of sim y "scaled_pop_size sim" "susceptible ops sim"]
      apply_day_closed(2) [OF closed y x, of d]
    by (auto simp: K_def u_def I_def)
  show "if \<not> fzero ops (beta0 self) \<and> set layer_keys \<subseteq> dom (beta_layer0 self)
              \<and> sim_t sim < length (u_k self) \<and> ''infected'' \<in> dom (targets self)
          then \<exists>tgt. targets self ''infected'' = Some tgt
             \<and> snd (apply_day ops d self sim)
                 = Inr (self\<lparr>Kalman := K, u_k := (u_k self)[sim_t sim := beta0 self],
                             integrated_err := fsub ops (fadd ops (integrated_err self) y) tgt\<rparr>,
                        sim\<lparr>pars_beta_layer :=
                              (\<lambda>l. if l \<in> set layer_keys
                                   then map_option
                                          (\<lambda>l0. fdiv ops (fmul ops l0 (beta0 self)) (beta0 self))
                                          (beta_layer0 self l)
                                   else pars_beta_layer sim l)\<rparr>)
          else \<exists>e. snd (apply_day ops d self sim) = Inl e"
  proof (cases "\<not> fzero ops (beta0 self) \<and> set layer_keys \<subseteq> dom (beta_layer0 self)
              \<and> sim_t sim < length (u_k self) \<and> ''infected'' \<in> dom (targets self)")
    case True
    then obtain tgt where tgt: "targets self ''infected'' = Some tgt" by auto
    from True have b0: "\<not> fzero ops (beta0 self)"
      and keys: "set layer_keys \<subseteq> dom (beta_layer0 self)"
      and day: "sim_t sim < length (u_k self)" by simp_all
    show ?thesis
      unfolding if_P [OF True]
      using tgt fallback_run [OF closed y x neg b0 keys day tgt]
      by (simp add: K_def u_def I_def)
  next
    case False
    then have "\<exists>e. snd (apply_day ops d self sim) = Inl e"
      using closed_day_raises [OF closed y x, of d] neg by blast
    then show ?thesis unfolding if_not_P [OF False] .
  qed
  show "fzero ops (beta0 self) \<and> ''h'' \<in> dom (beta_layer0 self)
          \<longrightarrow> snd (apply_day ops d self sim) = Inl ZeroDivisionError"
    using fallback_zero_beta [OF neg, of sim y "scaled_pop_size sim" "susceptible ops sim"]
      apply_day_closed(1) [OF closed y x, of d]
    by simp
qed

lemma negative_estimate:
  "upweighted double_ops (kalman_Ihat (example_deps c)
      (kalman_update (example_deps c) (Kalman example_negative)
         (fsub double_ops (Finite 7) (infectious double_ops example_sim))
         (infectious double_ops example_sim) u)) = Finite (- 4)"
  by (simp add: example_negative_def example_counts example_estimate)

lemma tenth_estimate:
  "upweighted double_ops (kalman_Ihat (example_deps c)
      (kalman_update (example_deps c) (Kalman example_tenth)
         (fsub double_ops (Finite 7) (infectious double_ops example_sim))
         (infectious double_ops example_sim) u)) = Finite (- 4)"
  by (simp add: example_tenth_def example_negative_def example_counts example_estimate)

lemma positive_estimate:
  "upweighted double_ops (kalman_Ihat (example_deps c)
      (kalman_update (example_deps c) (Kalman example_self)
         (fsub double_ops (Finite 7) (infectious double_ops example_sim))
         (infectious double_ops example_sim) u)) = Finite 4"
  by (simp add: example_fields example_counts example_estimate)

lemma example_update:
  "kalman_update (example_deps c) k E (Finite 1) u = k @ [Finite 1]"
  by (simp add: example_deps_def)

lemma example_error:
  "fsub double_ops (fadd double_ops (Finite 0) (Finite 7)) (Finite 5) = Finite 2"
  by (simp add: double_ops_def dsub_def)

lemma baseline_layers:
  "(\<lambda>l. if l \<in> set layer_keys
        then map_option (\<lambda>l0. fdiv double_ops (fmul double_ops l0 (Finite 2)) (Finite 2))
               (example_layers l)
        else yesterday_layers l) = example_layers"
  by (rule ext) (simp add: layer_keys_def example_layers_def yesterday_layers_def double_ops_def)

theorem fallback_applies_baseline_witness:
  "closed_loop_day double_ops example_negative example_sim
   \<and> \<not> fpos double_ops (Finite (- 4))
   \<and> Print_negative_estimate (Finite (- 4))
       \<in> set (fst (apply_day double_ops (example_deps (Finite 180)) example_negative example_sim))
   \<and> snd (apply_day double_ops (example_deps (Finite 180)) example_negative example_sim)
       = Inr (example_negative\<lparr>Kalman := [Finite (- 3), Finite 1],
                                u_k := [Finite 2, Finite 2, Finite 2],
                                integrated_err := Finite 2\<rparr>,
              example_sim\<lparr>pars_beta_layer := example_layers\<rparr>)"
proof -
  have neg: "\<not> fpos double_ops (Finite (- 4))" by (simp add: double_ops_def)
  have cond: "\<not> fzero double_ops (beta0 example_negative)
      \<and> set layer_keys \<subseteq> dom (beta_layer0 example_negative)
      \<and> sim_t example_sim < length (u_k example_negative)
      \<and> ''infected'' \<in> dom (targets example_negative)"
    by (simp add: example_negative_def example_fields example_keys domIff)
      (simp add: double_ops_def)
  have fields: "beta0 example_negative = Finite 2" "beta_layer0 example_negative = example_layers"
    "u_k example_negative = [Finite 2, Finite 2, Finite 2]"
    "integrated_err example_negative = Finite 0" "Kalman example_negative = [Finite (- 3)]"
    "targets example_negative ''infected'' = Some (Finite 5)"
    by (simp_all add: example_negative_def example_fields)
  have "Print_negative_estimate (Finite (- 4))
       \<in> set (fst (apply_day double_ops (example_deps (Finite 180)) example_negative example_sim))
   \<and> snd (apply_day double_ops (example_deps (Finite 180)) example_negative example_sim)
       = Inr (example_negative\<lparr>Kalman := [Finite (- 3), Finite 1],
                                u_k := [Finite 2, Finite 2, Finite 2],
                                integrated_err := Finite 2\<rparr>,
              example_sim\<lparr>pars_beta_layer := example_layers\<rparr>)"
    using fallback_applies_baseline [OF negative_closed example_reads,
        of "example_deps (Finite 180)", unfolded negative_estimate if_P [OF cond], OF neg]
    by (simp add: fields example_fields example_counts example_update example_error
        baseline_layers cong: if_cong)
  with negative_closed neg show ?thesis by blast
qed

lemma tenth_layers:
  "(\<lambda>l. if l \<in> set layer_keys
        then map_option (\<lambda>l0. fdiv double_ops (fmul double_ops l0 (Finite tenth)) (Finite tenth))
               (yesterday_layers l)
        else yesterday_layers l)
     = [''h'' \<mapsto> Finite (6755399441055745 / 2251799813685248), ''s'' \<mapsto> Finite 1,
        ''w'' \<mapsto> Finite 1, ''c'' \<mapsto> Finite 1, ''l'' \<mapsto> Finite 1]"
  by (rule ext)
    (simp add: layer_keys_def yesterday_layers_def double_ops_def three_tenths
      three_tenths_by_tenth tenth_by_tenth del: dmul.simps ddiv.simps)

lemma example_tenth_run:
  "snd (apply_day double_ops (example_deps (Finite 180)) example_tenth example_sim)
     = Inr (example_tenth\<lparr>Kalman := [Finite (- 3), Finite 1],
                           u_k := [Finite 2, Finite tenth, Finite 2],
                           integrated_err := Finite 2\<rparr>,
            example_sim\<lparr>pars_beta_layer :=
              [''h'' \<mapsto> Finite (6755399441055745 / 2251799813685248), ''s'' \<mapsto> Finite 1,
               ''w'' \<mapsto> Finite 1, ''c'' \<mapsto> Finite 1, ''l'' \<mapsto> Finite 1]\<rparr>)"
proof -
  have neg: "\<not> fpos double_ops (Finite (- 4))" by (simp add: double_ops_def)
  have b0: "\<not> fzero double_ops (beta0 example_tenth)"
    by (simp add: example_tenth_def double_ops_def tenth_def)
  have keys: "set layer_keys \<subseteq> dom (beta_layer0 example_tenth)"
    by (simp add: example_tenth_def example_keys)
  have day: "sim_t example_sim < length (u_k example_tenth)"
    by (simp add: example_tenth_def example_negative_def example_fields)
  have tgt: "targets example_tenth ''infected'' = Some (Finite 5)"
    by (simp add: example_tenth_def example_negative_def example_fields)
  have fields: "beta0 example_tenth = Finite tenth" "beta_layer0 example_tenth = yesterday_layers"
    "u_k example_tenth = [Finite 2, Finite 2, Finite 2]"
    "integrated_err example_tenth = Finite 0" "Kalman example_tenth = [Finite (- 3)]"
    by (simp_all add: example_tenth_def example_negative_def example_fields)
  show ?thesis
    using fallback_run [OF tenth_closed example_reads _ b0 keys day tgt,
        of "example_deps (Finite 180)", unfolded tenth_estimate, OF neg]
    by (simp add: fields example_fields example_counts example_update example_error
        tenth_layers cong: if_cong)
qed

text \<open>
  C8 as stated fails in two ways. With \<open>beta0 = 0\<close> the fallback computes
  \<open>beta_layer0[lkey] * beta0 / beta0\<close> with Python floats and the day ends with a
  \<open>ZeroDivisionError\<close>. With \<open>beta0 = 0.1\<close> and the original rate 3.0 for \<open>h\<close> the day
  returns, and the rate of \<open>h\<close> is \<open>3.0 * 0.1 / 0.1 = 3.0000000000000004\<close>, the double
  \<open>3 + 2^(-51)\<close>, not the original rate.
\<close>

theorem fallback_counterexample:
  "closed_loop_day double_ops (example_negative\<lparr>beta0 := Finite 0\<rparr>) example_sim
   \<and> \<not> fpos double_ops (Finite (- 4))
   \<and> snd (apply_day double_ops (example_deps (Finite 180)) (example_negative\<lparr>beta0 := Finite 0\<rparr>)
            example_sim) = Inl ZeroDivisionError
   \<and> closed_loop_day double_ops example_tenth example_sim
   \<and> beta_layer0 example_tenth ''h'' = Some (Finite 3)
   \<and> (\<exists>self' sim'.
         snd (apply_day double_ops (example_deps (Finite 180)) example_tenth example_sim)
           = Inr (self', sim')
         \<and> pars_beta_layer sim' ''h'' = Some (Finite (6755399441055745 / 2251799813685248)))
   \<and> (6755399441055745 / 2251799813685248 :: real) = 3 + 1 / 2 ^ 51"
proof -
  have c: "closed_loop_day double_ops (example_negative\<lparr>beta0 := Finite 0\<rparr>) example_sim"
    using negative_closed by (simp add: closed_loop_day_def)
  have neg: "\<not> fpos double_ops (Finite (- 4))" by (simp add: double_ops_def)
  have est: "\<not> fpos double_ops (upweighted double_ops (kalman_Ihat (example_deps (Finite 180))
      (kalman_update (example_deps (Finite 180)) (Kalman (example_negative\<lparr>beta0 := Finite 0\<rparr>))
         (fsub double_ops (Finite 7) (infectious double_ops example_sim))
         (infectious double_ops example_sim)
         (fmax double_ops (get_control (example_deps (Finite 180))
            (kalman_EIhat (example_deps (Finite 180)) (Kalman (example_negative\<lparr>beta0 := Finite 0\<rparr>))
               @ [integrated_err (example_negative\<lparr>beta0 := Finite 0\<rparr>)])) (fint double_ops 0)))))"
    using neg negative_estimate [of "Finite 180"] by simp
  have z: "fzero double_ops (beta0 (example_negative\<lparr>beta0 := Finite 0\<rparr>))"
    by (simp add: double_ops_def)
  have h: "''h'' \<in> dom (beta_layer0 (example_negative\<lparr>beta0 := Finite 0\<rparr>))"
    by (simp add: example_negative_def example_fields example_layers_def)
  have zero: "snd (apply_day double_ops (example_deps (Finite 180))
                (example_negative\<lparr>beta0 := Finite 0\<rparr>) example_sim) = Inl ZeroDivisionError"
    using fallback_zero_beta [OF est z h, of example_sim "Finite 7" "scaled_pop_size example_sim"
        "susceptible double_ops example_sim"]
      apply_day_closed(1) [OF c example_reads, of "example_deps (Finite 180)"]
    by simp
  have h3: "beta_layer0 example_tenth ''h'' = Some (Finite 3)"
    by (simp add: example_tenth_def yesterday_layers_def)
  have val: "(6755399441055745 / 2251799813685248 :: real) = 3 + 1 / 2 ^ 51" by simp
  show ?thesis
    using c neg zero tenth_closed h3 val by (simp add: example_tenth_run)
qed

text \<open>
  C9, as the code has it. On a closed-loop day (whose two reads of the result arrays at
  index \<open>t - 1\<close> succeed) on which the up-weighted estimate \<open>xi\<close>, the sum of the
  estimated infectious sub-states plus, a second time, the sum of the first three of them,
  is positive, and with \<open>Ipow\<close> set on the model object, the new rate is the double
  \<open>max(u / (S * xi**Ipow / N), 0) / 18\<close>: \<open>u\<close> is the control signal clamped at zero,
  \<open>S\<close> the observed susceptible count, and the divisor is the constant 18 whatever the
  layers of the simulation. \<open>apply\<close> returns exactly when the saved baseline
  \<open>beta_layer0\<close> has the five layers \<open>h, s, w, c, l\<close>, the day \<open>t\<close> indexes \<open>u_k\<close> and
  \<open>targets\<close> has \<open>'infected'\<close>; then the new rate is recorded in \<open>u_k[t]\<close>, each of the
  five layers is set to the double \<open>(beta_layer0[lkey] * new rate) / beta0\<close>, the other
  layers keep their rates, the integral error advances by \<open>y - targets['infected']\<close> and
  the estimator has been updated. Otherwise \<open>apply\<close> raises. Neither \<open>N\<close> nor \<open>beta0\<close>
  needs to be nonzero: the divisions are numpy's.
\<close>

theorem closed_loop_rate:
  fixes ops :: "'f float_ops" and d :: "('k, 'f) deps"
    and self :: "('k, 'f) controller_intervention" and sim :: "'f sim"
  defines "I \<equiv> infectious ops sim" and "S \<equiv> susceptible ops sim"
    and "N \<equiv> scaled_pop_size sim"
  assumes "closed_loop_day ops self sim"
    and "array_get (results_n_exposed sim) (int (sim_t sim) - 1) = Inr y"
    and "array_get (results_new_infections sim) (int (sim_t sim) - 1) = Inr x"
  defines "u \<equiv> fmax ops (get_control d (kalman_EIhat d (Kalman self) @ [integrated_err self]))
                  (fint ops 0)"
  defines "K \<equiv> kalman_update d (Kalman self) (fsub ops y I) I u"
  defines "xi \<equiv> fadd ops (fsum ops (kalman_Ihat d K)) (fsum ops (take 3 (kalman_Ihat d K)))"
  assumes "fpos ops xi"
    and "SEIR_Ipow self = Some Ipow"
  defines "new_beta \<equiv>
     fdiv ops (fmax ops (fdiv ops u (fdiv ops (fmul ops S (fpow ops xi Ipow)) N)) (fint ops 0))
       (fint ops 18)"
  shows "if set layer_keys \<subseteq> dom (beta_layer0 self) \<and> sim_t sim < length (u_k self)
            \<and> ''infected'' \<in> dom (targets self)
         then \<exists>tgt. targets self ''infected'' = Some tgt
            \<and> snd (apply_day ops d self sim)
                = Inr (self\<lparr>Kalman := K, u_k := (u_k self)[sim_t sim := new_beta],
                            integrated_err := fsub ops (fadd ops (integrated_err self) y) tgt\<rparr>,
                       sim\<lparr>pars_beta_layer :=
                             (\<lambda>l. if l \<in> set layer_keys
                                  then map_option
                                         (\<lambda>l0. fdiv ops (fmul ops l0 new_beta) (beta0 self))
                                         (beta_layer0 self l)
                                  else pars_beta_layer sim l)\<rparr>)
         else \<exists>e. snd (apply_day ops d self sim) = Inl e"
proof (cases "set layer_keys \<subseteq> dom (beta_layer0 self) \<and> sim_t sim < length (u_k self)
            \<and> ''infected'' \<in> dom (targets self)")
  case True
  note closed = assms(4) and y = assms(5) and x = assms(6) and Ipow = assms(11)
  have pos: "fpos ops (upweighted ops (kalman_Ihat d (kalman_update d (Kalman self)
                 (fsub ops y (infectious ops sim)) (infectious ops sim)
                 (fmax ops (get_control d (kalman_EIhat d (Kalman self) @ [integrated_err self]))
                    (fint ops 0)))))"
    using assms(10) by (simp add: xi_def K_def u_def I_def upweighted_def)
  from True obtain tgt where tgt: "targets self ''infected'' = Some tgt" by auto
  from True have keys: "set layer_keys \<subseteq> dom (beta_layer0 self)"
    and day: "sim_t sim < length (u_k self)" by simp_all
  show ?thesis
    unfolding if_P [OF True]
    using tgt rate_run [OF closed y x pos Ipow keys day tgt]
    by (simp add: new_beta_def xi_def K_def u_def I_def S_def N_def upweighted_def
        rate_formula_def cong: if_cong)
next
  case False
  note closed = assms(4) and y = assms(5) and x = assms(6)
  from False have "\<exists>e. snd (apply_day ops d self sim) = Inl e"
    using closed_day_raises [OF closed y x, of d] by blast
  then show ?thesis unfolding if_not_P [OF False] .
qed

lemma scaled_layers:
  "(\<lambda>l. if l \<in> set layer_keys
        then map_option (\<lambda>l0. fdiv double_ops (fmul double_ops l0 (Finite 5)) (Finite 2))
               (example_layers l)
        else yesterday_layers l)
     = [''h'' \<mapsto> Finite 15, ''s'' \<mapsto> Finite 5, ''w'' \<mapsto> Finite 5, ''c'' \<mapsto> Finite 5,
        ''l'' \<mapsto> Finite 5]"
  by (rule ext) (simp add: layer_keys_def example_layers_def yesterday_layers_def double_ops_def)


lemma example_cond:
  "set layer_keys \<subseteq> dom (beta_layer0 example_self)
   \<and> sim_t example_sim < length (u_k example_self)
   \<and> ''infected'' \<in> dom (targets example_self)"
  by (simp add: example_fields example_keys domIff)

lemma example_positive: "fpos double_ops (Finite 4)"
  by (simp add: double_ops_def)

lemma example_sums:
  "fadd double_ops (fsum double_ops [Finite 1, Finite 1])
     (fsum double_ops (take 3 [Finite 1, Finite 1])) = Finite 4"
  by (simp add: double_ops_def dsum_def)

lemma example_formula:
  "fdiv double_ops
     (fmax double_ops
        (fdiv double_ops (Finite 180)
           (fdiv double_ops (fmul double_ops (Finite 2) (fpow double_ops (Finite 4) (Finite 1)))
              (Finite 4)))
        (fint double_ops 0))
     (fint double_ops 18) = Finite 5"
  "fdiv double_ops
     (fmax double_ops
        (fdiv double_ops (Finite 180)
           (fdiv double_ops (fmul double_ops (Finite 2) (fpow double_ops (Finite 4) (Finite 1)))
              (Finite 4)))
        (fint double_ops 0))
     (fint double_ops 5) = Finite 18"
  by (simp_all add: double_ops_def dpow_def)

theorem closed_loop_rate_witness:
  "closed_loop_day double_ops example_self example_sim
   \<and> fpos double_ops (Finite 4)
   \<and> SEIR_Ipow example_self = Some (Finite 1)
   \<and> snd (apply_day double_ops (example_deps (Finite 180)) example_self example_sim)
       = Inr (example_self\<lparr>Kalman := [Finite 1, Finite 1],
                            u_k := [Finite 2, Finite 5, Finite 2],
                            integrated_err := Finite 2\<rparr>,
              example_sim\<lparr>pars_beta_layer :=
                [''h'' \<mapsto> Finite 15, ''s'' \<mapsto> Finite 5, ''w'' \<mapsto> Finite 5, ''c'' \<mapsto> Finite 5,
                 ''l'' \<mapsto> Finite 5]\<rparr>)"
proof -
  have xi: "fadd double_ops
      (fsum double_ops (kalman_Ihat (example_deps (Finite 180))
         (kalman_update (example_deps (Finite 180)) (Kalman example_self)
            (fsub double_ops (Finite 7) (infectious double_ops example_sim))
            (infectious double_ops example_sim) u)))
      (fsum double_ops (take 3 (kalman_Ihat (example_deps (Finite 180))
         (kalman_update (example_deps (Finite 180)) (Kalman example_self)
            (fsub double_ops (Finite 7) (infectious double_ops example_sim))
            (infectious double_ops example_sim) u)))) = Finite 4" for u
    using positive_estimate [of "Finite 180" u] by (simp add: upweighted_def)
  have "snd (apply_day double_ops (example_deps (Finite 180)) example_self example_sim)
       = Inr (example_self\<lparr>Kalman := [Finite 1, Finite 1],
                            u_k := [Finite 2, Finite 5, Finite 2],
                            integrated_err := Finite 2\<rparr>,
              example_sim\<lparr>pars_beta_layer :=
                [''h'' \<mapsto> Finite 15, ''s'' \<mapsto> Finite 5, ''w'' \<mapsto> Finite 5, ''c'' \<mapsto> Finite 5,
                 ''l'' \<mapsto> Finite 5]\<rparr>)"
    using closed_loop_rate [OF example_closed example_reads,
        of "example_deps (Finite 180)" "Finite 1", unfolded xi if_P [OF example_cond],
        OF example_positive example_fields(11)]
    by (simp add: example_fields example_counts example_control example_update example_error
        example_formula scaled_layers cong: if_cong)
  with example_closed example_positive example_fields(11) show ?thesis by blast
qed

lemma example_rate_run:
  "snd (apply_day double_ops (example_deps (Finite 180)) example_self example_sim)
       = Inr (example_self\<lparr>Kalman := [Finite 1, Finite 1],
                            u_k := [Finite 2, Finite 5, Finite 2],
                            integrated_err := Finite 2\<rparr>,
              example_sim\<lparr>pars_beta_layer :=
                [''h'' \<mapsto> Finite 15, ''s'' \<mapsto> Finite 5, ''w'' \<mapsto> Finite 5, ''c'' \<mapsto> Finite 5,
                 ''l'' \<mapsto> Finite 5]\<rparr>)"
proof -
  have pos: "fpos double_ops (Finite 4)" by (rule example_positive)
  show ?thesis
    using rate_run [OF example_closed example_reads _ example_fields(11)
        example_cond [THEN conjunct1] example_cond [THEN conjunct2, THEN conjunct1]
        example_fields(10), of "example_deps (Finite 180)", unfolded positive_estimate, OF pos]
    by (simp add: example_fields example_counts example_control example_update example_error
        example_rate scaled_layers cong: if_cong)
qed


text \<open>
  C9 as stated fails: the example simulation has five contact layers, so that the claimed
  rate is \<open>max(180 / (2 * 4 / 4), 0) / 5 = 18\<close>; the code divides by 18 and the rate of
  the day is 5.
\<close>

theorem rate_divisor_counterexample:
  "closed_loop_day double_ops example_self example_sim
   \<and> card (dom (pars_beta_layer example_sim)) = 5
   \<and> susceptible double_ops example_sim = Finite 2
   \<and> scaled_pop_size example_sim = Finite 4
   \<and> SEIR_Ipow example_self = Some (Finite 1)
   \<and> fmax double_ops (get_control (example_deps (Finite 180))
          (kalman_EIhat (example_deps (Finite 180)) (Kalman example_self)
             @ [integrated_err example_self])) (fint double_ops 0) = Finite 180
   \<and> upweighted double_ops (kalman_Ihat (example_deps (Finite 180))
        (kalman_update (example_deps (Finite 180)) (Kalman example_self)
           (fsub double_ops (Finite 7) (infectious double_ops example_sim))
           (infectious double_ops example_sim) (Finite 180))) = Finite 4
   \<and> fdiv double_ops
        (fmax double_ops
           (fdiv double_ops (Finite 180)
              (fdiv double_ops
                 (fmul double_ops (Finite 2) (fpow double_ops (Finite 4) (Finite 1)))
                 (Finite 4)))
           (fint double_ops 0))
        (fint double_ops 5) = Finite 18
   \<and> (\<exists>self' sim'.
         snd (apply_day double_ops (example_deps (Finite 180)) example_self example_sim)
           = Inr (self', sim')
         \<and> u_k self' ! sim_t example_sim = Finite 5)"
proof -
  have "dom (pars_beta_layer example_sim) = {''h'', ''s'', ''w'', ''c'', ''l''}"
    by (auto simp: example_fields yesterday_layers_def)
  then have card: "card (dom (pars_beta_layer example_sim)) = 5" by simp
  have run: "\<exists>self' sim'.
         snd (apply_day double_ops (example_deps (Finite 180)) example_self example_sim)
           = Inr (self', sim')
         \<and> u_k self' ! sim_t example_sim = Finite 5"
    by (simp add: example_rate_run example_fields)
  show ?thesis
    using example_closed card example_counts(1) example_fields(2,11) example_control(1)
      positive_estimate example_formula(2) run
    by blast
qed

lemma closed_day_layers:
  assumes "snd (apply_day ops d self sim) = Inr (self', sim')"
    and "closed_loop_day ops self sim"
  shows "\<forall>l\<in>set layer_keys. \<exists>l0. beta_layer0 self l = Some l0
             \<and> pars_beta_layer sim' l
                 = Some (fdiv ops (fmul ops l0 (u_k self' ! sim_t sim)) (beta0 self))"
    and "\<forall>l. l \<notin> set layer_keys \<longrightarrow> pars_beta_layer sim' l = pars_beta_layer sim l"
proof -
  from apply_day_Inr [OF assms(1)] assms(2) obtain y where
    "snd (closed_loop ops d self sim y (scaled_pop_size sim) (susceptible ops sim)
            (fsub ops y (infectious ops sim)) (infectious ops sim)) = Inr (self', sim')"
    by auto
  from closed_loop_Inr [OF this] obtain nb bl tgt where
    bl: "set_beta_layer ops layer_keys (beta_layer0 self) nb (beta0 self) (pars_beta_layer sim)
           = Inr bl"
    and day: "sim_t sim < length (u_k self)"
    and uk: "u_k self' = (u_k self)[sim_t sim := scalar_value nb]"
    and sim': "sim' = sim\<lparr>pars_beta_layer := bl\<rparr>"
    by auto
  have rate: "u_k self' ! sim_t sim = scalar_value nb" using uk day by simp
  note inv = set_beta_layer_Inr [OF bl]
  show "\<forall>l\<in>set layer_keys. \<exists>l0. beta_layer0 self l = Some l0
             \<and> pars_beta_layer sim' l
                 = Some (fdiv ops (fmul ops l0 (u_k self' ! sim_t sim)) (beta0 self))"
    using inv by (simp add: sim' rate)
  show "\<forall>l. l \<notin> set layer_keys \<longrightarrow> pars_beta_layer sim' l = pars_beta_layer sim l"
    using inv by (simp add: sim')
qed

text \<open>
  Without rounding, and when the multiplier is not zero, the ratio of the updated rates of
  two of the five layers is the ratio of their original rates.
\<close>

lemma exact_layer_ratios:
  assumes ret: "snd (apply_day exact_ops d self sim) = Inr (self', sim')"
    and closed: "closed_loop_day exact_ops self sim"
    and a: "a \<in> set layer_keys" "beta_layer0 self a = Some a0"
    and b: "b \<in> set layer_keys" "beta_layer0 self b = Some b0" "b0 \<noteq> 0"
    and m: "u_k self' ! sim_t sim / beta0 self \<noteq> 0"
  shows "\<exists>a' b'. pars_beta_layer sim' a = Some a' \<and> pars_beta_layer sim' b = Some b'
           \<and> a' = a0 * (u_k self' ! sim_t sim / beta0 self)
           \<and> b' = b0 * (u_k self' ! sim_t sim / beta0 self)
           \<and> b' \<noteq> 0 \<and> a' / b' = a0 / b0"
proof -
  note sc = closed_day_layers(1) [OF ret closed]
  from sc a have a': "pars_beta_layer sim' a = Some (a0 * (u_k self' ! sim_t sim) / beta0 self)"
    by (auto simp: exact_ops_def)
  from sc b have b': "pars_beta_layer sim' b = Some (b0 * (u_k self' ! sim_t sim) / beta0 self)"
    by (auto simp: exact_ops_def)
  from m b(3) show ?thesis by (simp add: a' b')
qed




text \<open>
  On the branch that computes the rate nothing requires a nonzero \<open>beta0\<close>: the division
  of line 120 is numpy's, the day returns and the five layers are infinite.
\<close>

lemma zero_beta_rate_day:
  "\<exists>self' sim'.
     snd (apply_day double_ops (example_deps (Finite 180)) (example_self\<lparr>beta0 := Finite 0\<rparr>)
            example_sim) = Inr (self', sim')
     \<and> u_k self' ! sim_t example_sim = Finite 5
     \<and> pars_beta_layer sim' ''h'' = Some PInf"
proof -
  have closed: "closed_loop_day double_ops (example_self\<lparr>beta0 := Finite 0\<rparr>) example_sim"
    using example_closed by (simp add: closed_loop_day_def)
  have pos: "fpos double_ops (Finite 4)" by (rule example_positive)
  have est: "upweighted double_ops (kalman_Ihat (example_deps c)
      (kalman_update (example_deps c) (Kalman (example_self\<lparr>beta0 := Finite 0\<rparr>))
         (fsub double_ops (Finite 7) (infectious double_ops example_sim))
         (infectious double_ops example_sim) u)) = Finite 4" for c u
    using positive_estimate [of c u] by simp
  have keys: "set layer_keys \<subseteq> dom (beta_layer0 (example_self\<lparr>beta0 := Finite 0\<rparr>))"
    using example_cond by simp
  have h: "''h'' \<in> set layer_keys" by (simp add: layer_keys_def)
  have "snd (apply_day double_ops (example_deps (Finite 180)) (example_self\<lparr>beta0 := Finite 0\<rparr>)
            example_sim)
      = Inr (example_self\<lparr>beta0 := Finite 0, Kalman := [Finite 1, Finite 1],
                            u_k := [Finite 2, Finite 5, Finite 2],
                            integrated_err := Finite 2\<rparr>,
              example_sim\<lparr>pars_beta_layer :=
                (\<lambda>l. if l \<in> set layer_keys
                     then map_option
                            (\<lambda>l0. fdiv double_ops (fmul double_ops l0 (Finite 5)) (Finite 0))
                            (example_layers l)
                     else yesterday_layers l)\<rparr>)"
    using rate_run [OF closed example_reads, of "example_deps (Finite 180)" "Finite 1" "Finite 5",
        unfolded est, OF pos _ keys]
    by (simp add: example_fields example_counts example_control example_update example_error
        example_rate cong: if_cong)
  then show ?thesis
    using h by (simp add: example_fields example_layers_def double_ops_def)
qed

end
